theory Spec2Isabelle
  imports Main "HOL-Library.Word" "HOL-Library.Multiset"
begin

unbundle bit_operations_syntax

section \<open>Data model of the RecoverFHE contract\<close>

text \<open>
  The contract is the Solidity source \<open>contract RecoverFHE\<close>.  Solidity types are modelled
  as follows.
  \<^item> \<open>address\<close> and \<open>uint256\<close> are natural numbers.  The contract does no arithmetic on
    them besides the loop counters \<open>i++\<close> and \<open>count++\<close> (bounded by \<open>totalShards\<close>) and
    \<open>shardCount[sessionId]++\<close>, so no wrap-around or overflow revert is involved.
    \<open>address(0)\<close> is \<open>0\<close>.
  \<^item> \<open>uint32\<close> is a 32-bit word; \<open>^=\<close> is \<open>XOR\<close> on it.
  \<^item> \<open>euint32\<close> is the \<open>bytes32\<close> handle of a ciphertext, a natural number; the
    uninitialised handle is \<open>0\<close>.
  \<^item> \<open>bytes\<close> is a list of 8-bit words and \<open>string\<close> a list of characters, so that
    \<open>bytes(s).length == 0\<close> is \<open>s = []\<close>.
  \<^item> A \<open>mapping\<close> is a total function: a key never written reads as the all-zero value.
\<close>

type_synonym address = nat
type_synonym uint256 = nat
type_synonym uint32 = "32 word"
type_synonym euint32 = nat
type_synonym bytes = "8 word list"

record Shard =
  encryptedValue :: euint32
  holder :: address
  isVerified :: bool

record RecoverySession =
  name :: string
  threshold :: uint256
  totalShards :: uint256
  publicValue1 :: uint256
  publicValue2 :: uint256
  description :: string
  creator :: address
  timestamp :: uint256
  decryptedValue :: uint32
  isComplete :: bool

datatype event =
    SessionCreated string address
  | ShardAdded string uint256 address
  | ShardVerified string uint256
  | SessionCompleted string uint32

text \<open>
  The storage of the contract, together with the log of the events emitted so far
  (a reverted call emits nothing, like it writes nothing).
\<close>

record contract =
  sessions :: "string \<Rightarrow> RecoverySession"
  sessionShards :: "string \<Rightarrow> uint256 \<Rightarrow> Shard"
  shardCount :: "string \<Rightarrow> uint256"
  sessionIds :: "string list"
  events :: "event list"

definition zero_shard :: Shard where
  "zero_shard = \<lparr>encryptedValue = 0, holder = 0, isVerified = False\<rparr>"

definition zero_session :: RecoverySession where
  "zero_session = \<lparr>name = [], threshold = 0, totalShards = 0, publicValue1 = 0,
     publicValue2 = 0, description = [], creator = 0, timestamp = 0, decryptedValue = 0,
     isComplete = False\<rparr>"

definition init_contract :: contract where
  "init_contract = \<lparr>sessions = (\<lambda>_. zero_session), sessionShards = (\<lambda>_ _. zero_shard),
     shardCount = (\<lambda>_. 0), sessionIds = [], events = []\<rparr>"

text \<open>
  Every \<open>require\<close> of the contract is one error value, named as the specification names
  it; the revert string of the source is given beside it.  \<open>ShardNotFound\<close> is named by
  the specification only: no \<open>require\<close> of the contract raises it.
\<close>

datatype error =
    SessionAlreadyExists      \<comment> \<open>"Session already exists"\<close>
  | InvalidThreshold          \<comment> \<open>"Invalid threshold"\<close>
  | SessionNotFound           \<comment> \<open>"Session does not exist"\<close>
  | InvalidShardIndex         \<comment> \<open>"Invalid shard index"\<close>
  | ShardSlotOccupied         \<comment> \<open>"Shard already exists"\<close>
  | InvalidCiphertext         \<comment> \<open>"Invalid encrypted input"\<close>
  | InputProofRejected        \<comment> \<open>revert inside \<open>FHE.fromExternal\<close>\<close>
  | ShardNotFound
  | ShardAlreadyVerified      \<comment> \<open>"Shard already verified"\<close>
  | ProofVerificationFailed   \<comment> \<open>revert inside \<open>FHE.checkSignatures\<close>\<close>
  | AbiDecodeFailed           \<comment> \<open>revert inside \<open>abi.decode\<close>\<close>
  | InvalidShardValue         \<comment> \<open>"Invalid shard value"\<close>
  | SessionAlreadyCompleted   \<comment> \<open>"Session already completed"\<close>

subsection \<open>The external FHE library\<close>

text \<open>
  The library calls of the contract are parameters of the model.
  \<^item> \<open>fromExternal h p sender\<close> is \<open>FHE.fromExternal(h, p)\<close> called by \<open>sender\<close>:
    the ciphertext handle, or \<open>None\<close> when the library reverts on the input proof.
  \<^item> \<open>checkSignatures cts clear proof\<close> tells whether \<open>FHE.checkSignatures\<close> returns
    (it reverts otherwise).
  \<^item> \<open>getDecryptionProof h\<close> is the byte string \<open>FHE.getDecryptionProof(h)\<close>.
  \<open>FHE.isInitialized(h)\<close> is \<open>h \<noteq> 0\<close> and \<open>FHE.toBytes32(h)\<close> is \<open>h\<close>.
  \<open>FHE.allowThis\<close> and \<open>FHE.makePubliclyDecryptable\<close> change the access-control list of
  the library, not the storage of this contract.
\<close>

record fhe =
  fromExternal :: "nat \<Rightarrow> bytes \<Rightarrow> address \<Rightarrow> euint32 option"
  checkSignatures :: "euint32 list \<Rightarrow> bytes \<Rightarrow> bytes \<Rightarrow> bool"
  getDecryptionProof :: "euint32 \<Rightarrow> bytes"

definition isInitialized :: "euint32 \<Rightarrow> bool" where
  "isInitialized h \<longleftrightarrow> h \<noteq> 0"

text \<open>
  \<open>abi.decode(b, (uint32))\<close>: the first 32 bytes of \<open>b\<close> are one big-endian word; the
  call reverts when \<open>b\<close> is shorter than 32 bytes or the word does not fit 32 bits.
\<close>

definition be_nat :: "bytes \<Rightarrow> nat" where
  "be_nat bs = foldl (\<lambda>acc b. acc * 256 + unat b) 0 bs"

definition abi_decode_uint32 :: "bytes \<Rightarrow> uint32 option" where
  "abi_decode_uint32 b =
     (if length b < 32 then None
      else if be_nat (take 32 b) < 2 ^ 32 then Some (of_nat (be_nat (take 32 b)))
      else None)"

text \<open>
  \<open>abi.encode(v)\<close> for a \<open>uint32\<close>: the value as one big-endian word of 32 bytes.
  The contract never encodes; callers and the library do.
\<close>

fun be_bytes :: "nat \<Rightarrow> nat \<Rightarrow> bytes" where
  "be_bytes 0 n = []"
| "be_bytes (Suc k) n = be_bytes k (n div 256) @ [of_nat (n mod 256)]"

definition abi_encode_uint32 :: "uint32 \<Rightarrow> bytes" where
  "abi_encode_uint32 v = be_bytes 32 (unat v)"

section \<open>The operations\<close>

text \<open>
  A call returns \<open>Inl e\<close> when it reverts and \<open>Inr c'\<close> with the new storage when it
  returns.  \<open>sender\<close> is \<open>msg.sender\<close> and \<open>now\<close> is \<open>block.timestamp\<close>.
\<close>

definition createSession ::
  "address \<Rightarrow> uint256 \<Rightarrow> string \<Rightarrow> string \<Rightarrow> uint256 \<Rightarrow> uint256 \<Rightarrow> uint256 \<Rightarrow> uint256 \<Rightarrow> string
     \<Rightarrow> contract \<Rightarrow> error + contract" where
  "createSession sender now sessionId name' threshold' totalShards' publicValue1' publicValue2'
       description' c =
     (if name (sessions c sessionId) \<noteq> [] then Inl SessionAlreadyExists
      else if \<not> (0 < threshold' \<and> threshold' \<le> totalShards') then Inl InvalidThreshold
      else Inr (c\<lparr>sessions := (sessions c)(sessionId :=
                    \<lparr>name = name', threshold = threshold', totalShards = totalShards',
                      publicValue1 = publicValue1', publicValue2 = publicValue2',
                      description = description', creator = sender,
                      timestamp = now, decryptedValue = 0, isComplete = False\<rparr>),
                  sessionIds := sessionIds c @ [sessionId],
                  events := events c @ [SessionCreated sessionId sender]\<rparr>))"

definition addShard ::
  "fhe \<Rightarrow> address \<Rightarrow> string \<Rightarrow> uint256 \<Rightarrow> nat \<Rightarrow> bytes \<Rightarrow> contract \<Rightarrow> error + contract" where
  "addShard env sender sessionId shardIndex ext inputProof c =
     (if name (sessions c sessionId) = [] then Inl SessionNotFound
      else if \<not> shardIndex < totalShards (sessions c sessionId) then Inl InvalidShardIndex
      else if holder (sessionShards c sessionId shardIndex) \<noteq> 0 then Inl ShardSlotOccupied
      else case fromExternal env ext inputProof sender of
          None \<Rightarrow> Inl InputProofRejected
        | Some h \<Rightarrow>
            if \<not> isInitialized h then Inl InvalidCiphertext
            else Inr (c\<lparr>sessionShards := (sessionShards c)(sessionId :=
                          (sessionShards c sessionId)(shardIndex :=
                             \<lparr>encryptedValue = h, holder = sender, isVerified = False\<rparr>)),
                        shardCount := (shardCount c)(sessionId := shardCount c sessionId + 1),
                        events := events c @ [ShardAdded sessionId shardIndex sender]\<rparr>))"

text \<open>The loop of \<open>getVerifiedShardCount\<close>, from counter \<open>i\<close> with \<open>count\<close> so far (\<open>count'\<close> here).\<close>

function getVerifiedShardCount_loop :: "contract \<Rightarrow> string \<Rightarrow> uint256 \<Rightarrow> uint256 \<Rightarrow> uint256" where
  "getVerifiedShardCount_loop c sessionId i count' =
     (if i < totalShards (sessions c sessionId)
      then getVerifiedShardCount_loop c sessionId (i + 1)
             (if isVerified (sessionShards c sessionId i) then count' + 1 else count')
      else count')"
  by pat_completeness auto
termination
  by (relation "measure (\<lambda>(c, sessionId, i, count'). totalShards (sessions c sessionId) - i)") auto

declare getVerifiedShardCount_loop.simps [simp del]

definition getVerifiedShardCount :: "contract \<Rightarrow> string \<Rightarrow> uint256" where
  "getVerifiedShardCount c sessionId = getVerifiedShardCount_loop c sessionId 0 0"

text \<open>The loop of \<open>combineShards\<close>; \<open>abi.decode\<close> may revert inside it.\<close>

function combineShards_loop :: "fhe \<Rightarrow> contract \<Rightarrow> string \<Rightarrow> uint256 \<Rightarrow> uint32 \<Rightarrow> error + uint32" where
  "combineShards_loop env c sessionId i combinedValue =
     (if i < totalShards (sessions c sessionId)
      then (if isVerified (sessionShards c sessionId i)
            then (case abi_decode_uint32
                         (getDecryptionProof env (encryptedValue (sessionShards c sessionId i))) of
                    None \<Rightarrow> Inl AbiDecodeFailed
                  | Some shardValue \<Rightarrow>
                      combineShards_loop env c sessionId (i + 1) (combinedValue XOR shardValue))
            else combineShards_loop env c sessionId (i + 1) combinedValue)
      else Inr combinedValue)"
  by pat_completeness auto
termination
  by (relation "measure (\<lambda>(env, c, sessionId, i, v). totalShards (sessions c sessionId) - i)") auto

declare combineShards_loop.simps [simp del]

definition combineShards :: "fhe \<Rightarrow> contract \<Rightarrow> string \<Rightarrow> error + uint32" where
  "combineShards env c sessionId = combineShards_loop env c sessionId 0 0"

definition completeSession :: "fhe \<Rightarrow> string \<Rightarrow> contract \<Rightarrow> error + contract" where
  "completeSession env sessionId c =
     (if isComplete (sessions c sessionId) then Inl SessionAlreadyCompleted
      else case combineShards env c sessionId of
          Inl e \<Rightarrow> Inl e
        | Inr reconstructedValue \<Rightarrow>
            Inr (c\<lparr>sessions := (sessions c)(sessionId :=
                      (sessions c sessionId)\<lparr>decryptedValue := reconstructedValue,
                                               isComplete := True\<rparr>),
                    events := events c @ [SessionCompleted sessionId reconstructedValue]\<rparr>))"

text \<open>The storage of \<open>verifyShard\<close> after \<open>isVerified = true\<close> and \<open>emit ShardVerified\<close>.\<close>

definition markVerified :: "string \<Rightarrow> uint256 \<Rightarrow> contract \<Rightarrow> contract" where
  "markVerified sessionId shardIndex c =
     c\<lparr>sessionShards := (sessionShards c)(sessionId :=
          (sessionShards c sessionId)(shardIndex :=
             (sessionShards c sessionId shardIndex)\<lparr>isVerified := True\<rparr>)),
       events := events c @ [ShardVerified sessionId shardIndex]\<rparr>"

definition verifyShard ::
  "fhe \<Rightarrow> string \<Rightarrow> uint256 \<Rightarrow> bytes \<Rightarrow> bytes \<Rightarrow> contract \<Rightarrow> error + contract" where
  "verifyShard env sessionId shardIndex abiEncodedClearValue decryptionProof c =
     (if name (sessions c sessionId) = [] then Inl SessionNotFound
      else if \<not> shardIndex < totalShards (sessions c sessionId) then Inl InvalidShardIndex
      else if isVerified (sessionShards c sessionId shardIndex) then Inl ShardAlreadyVerified
      else if \<not> checkSignatures env [encryptedValue (sessionShards c sessionId shardIndex)]
                  abiEncodedClearValue decryptionProof
           then Inl ProofVerificationFailed
      else case abi_decode_uint32 abiEncodedClearValue of
          None \<Rightarrow> Inl AbiDecodeFailed
        | Some decodedValue \<Rightarrow>
            if \<not> (unat decodedValue = publicValue1 (sessions c sessionId)
                   \<or> unat decodedValue = publicValue2 (sessions c sessionId))
            then Inl InvalidShardValue
            else let c1 = markVerified sessionId shardIndex c in
                 if getVerifiedShardCount c1 sessionId \<ge> threshold (sessions c1 sessionId)
                 then completeSession env sessionId c1
                 else Inr c1)"

subsection \<open>The view functions\<close>

definition getShard :: "contract \<Rightarrow> string \<Rightarrow> uint256 \<Rightarrow> error + euint32 \<times> address \<times> bool" where
  "getShard c sessionId shardIndex =
     (if name (sessions c sessionId) = [] then Inl SessionNotFound
      else if \<not> shardIndex < totalShards (sessions c sessionId) then Inl InvalidShardIndex
      else let shard = sessionShards c sessionId shardIndex in
           Inr (encryptedValue shard, holder shard, isVerified shard))"

definition getSession ::
  "contract \<Rightarrow> string \<Rightarrow>
     error + string \<times> uint256 \<times> uint256 \<times> uint256 \<times> uint256 \<times> string \<times> address \<times> uint256 \<times> bool \<times> uint32"
  where
  "getSession c sessionId =
     (if name (sessions c sessionId) = [] then Inl SessionNotFound
      else let session = sessions c sessionId in
           Inr (name session, threshold session, totalShards session, publicValue1 session,
                publicValue2 session, description session, creator session, timestamp session,
                isComplete session, decryptedValue session))"

definition getAllSessionIds :: "contract \<Rightarrow> string list" where
  "getAllSessionIds c = sessionIds c"

subsection \<open>Transactions\<close>

datatype call =
    CreateSession address uint256 string string uint256 uint256 uint256 uint256 string
  | AddShard address string uint256 nat bytes
  | VerifyShard string uint256 bytes bytes

fun perform :: "fhe \<Rightarrow> call \<Rightarrow> contract \<Rightarrow> error + contract" where
  "perform env (CreateSession sender now sessionId nm thr tot pv1 pv2 descr) c =
     createSession sender now sessionId nm thr tot pv1 pv2 descr c"
| "perform env (AddShard sender sessionId shardIndex ext inputProof) c =
     addShard env sender sessionId shardIndex ext inputProof c"
| "perform env (VerifyShard sessionId shardIndex clear proof) c =
     verifyShard env sessionId shardIndex clear proof c"

text \<open>A call that reverts leaves the storage and the log as they were.\<close>

definition transact :: "fhe \<Rightarrow> call \<Rightarrow> contract \<Rightarrow> contract" where
  "transact env cl c = (case perform env cl c of Inl e \<Rightarrow> c | Inr c' \<Rightarrow> c')"

fun run :: "fhe \<Rightarrow> call list \<Rightarrow> contract \<Rightarrow> contract" where
  "run env [] c = c"
| "run env (cl # cls) c = run env cls (transact env cl c)"

text \<open>\<open>msg.sender\<close> of a transaction is an account or a contract, never \<open>address(0)\<close>.\<close>

fun caller_ok :: "call \<Rightarrow> bool" where
  "caller_ok (CreateSession sender now sessionId nm thr tot pv1 pv2 descr) = (sender \<noteq> 0)"
| "caller_ok (AddShard sender sessionId shardIndex ext inputProof) = (sender \<noteq> 0)"
| "caller_ok (VerifyShard sessionId shardIndex clear proof) = True"

inductive reachable :: "fhe \<Rightarrow> contract \<Rightarrow> bool" for env :: fhe where
  reachable_init: "reachable env init_contract"
| reachable_step: "reachable env c \<Longrightarrow> caller_ok cl \<Longrightarrow> perform env cl c = Inr c' \<Longrightarrow> reachable env c'"

subsection \<open>Notions used in the statements\<close>

text \<open>The slots that \<open>getVerifiedShardCount\<close> and \<open>combineShards\<close> visit and act on.\<close>

definition verifiedIndices :: "contract \<Rightarrow> string \<Rightarrow> uint256 list" where
  "verifiedIndices c sessionId =
     filter (\<lambda>i. isVerified (sessionShards c sessionId i)) [0..<totalShards (sessions c sessionId)]"

text \<open>
  The cleartext \<open>combineShards\<close> reads for slot \<open>i\<close>:
  \<open>abi.decode(FHE.getDecryptionProof(encryptedValue), (uint32))\<close>, \<open>None\<close> when the
  decoding reverts.
\<close>

definition shardValue :: "fhe \<Rightarrow> contract \<Rightarrow> string \<Rightarrow> uint256 \<Rightarrow> uint32 option" where
  "shardValue env c sessionId i =
     abi_decode_uint32 (getDecryptionProof env (encryptedValue (sessionShards c sessionId i)))"

definition verifiedShardValues :: "fhe \<Rightarrow> contract \<Rightarrow> string \<Rightarrow> uint32 option list" where
  "verifiedShardValues env c sessionId = map (shardValue env c sessionId) (verifiedIndices c sessionId)"

text \<open>
  The combination algorithm in the words of the specification: the fold of bitwise
  exclusive-or over the verified cleartext values, starting from the identity element 0.
\<close>

definition CombinationAlgorithm :: "uint32 list \<Rightarrow> uint32" where
  "CombinationAlgorithm vs = fold (XOR) vs 0"

text \<open>The number of \<open>SessionCompleted\<close> events the log holds for a session.\<close>

fun isCompletionOf :: "string \<Rightarrow> event \<Rightarrow> bool" where
  "isCompletionOf sessionId (SessionCompleted s v) = (s = sessionId)"
| "isCompletionOf sessionId (SessionCreated s a) = False"
| "isCompletionOf sessionId (ShardAdded s i a) = False"
| "isCompletionOf sessionId (ShardVerified s i) = False"

definition completions :: "contract \<Rightarrow> string \<Rightarrow> nat" where
  "completions c sessionId = length (filter (isCompletionOf sessionId) (events c))"

text \<open>
  The library signs decryptions of ciphertexts it holds; the uninitialised handle is not
  one of them.  Where a statement depends on it, this is the assumption on the library.
\<close>

definition rejects_zero_handle :: "fhe \<Rightarrow> bool" where
  "rejects_zero_handle env \<longleftrightarrow> (\<forall>clear proof. \<not> checkSignatures env [0] clear proof)"

subsection \<open>Invariants of the reachable storage\<close>

text \<open>
  What holds of one session in every reachable storage, whatever the library does:
  a session without a name has no shard and is not complete; a named session keeps
  \<open>0 < threshold \<le> totalShards\<close>; only slots below \<open>totalShards\<close> are written; a
  session that is not complete has no reconstructed value and fewer verified shards
  than its threshold; and the log holds one \<open>SessionCompleted\<close> event for a complete
  session and none for any other.
\<close>

definition session_inv :: "contract \<Rightarrow> string \<Rightarrow> bool" where
  "session_inv c sessionId \<longleftrightarrow>
     (name (sessions c sessionId) = [] \<longrightarrow> (\<forall>i. sessionShards c sessionId i = zero_shard)) \<and>
     (name (sessions c sessionId) = [] \<longrightarrow> \<not> isComplete (sessions c sessionId)) \<and>
     (name (sessions c sessionId) \<noteq> [] \<longrightarrow>
        0 < threshold (sessions c sessionId) \<and>
        threshold (sessions c sessionId) \<le> totalShards (sessions c sessionId)) \<and>
     (\<forall>i. isVerified (sessionShards c sessionId i) \<longrightarrow> i < totalShards (sessions c sessionId)) \<and>
     (\<forall>i. holder (sessionShards c sessionId i) \<noteq> 0 \<longrightarrow> i < totalShards (sessions c sessionId)) \<and>
     (\<not> isComplete (sessions c sessionId) \<longrightarrow> decryptedValue (sessions c sessionId) = 0) \<and>
     (\<not> isComplete (sessions c sessionId) \<longrightarrow> name (sessions c sessionId) \<noteq> [] \<longrightarrow>
        getVerifiedShardCount c sessionId < threshold (sessions c sessionId)) \<and>
     completions c sessionId = (if isComplete (sessions c sessionId) then 1 else 0)"

text \<open>
  What holds in addition when the library rejects the uninitialised handle: a slot
  without a holder is untouched, and a complete session has exactly \<open>threshold\<close>
  verified shards, whose combination is its reconstructed value.
\<close>

definition honest_inv :: "fhe \<Rightarrow> contract \<Rightarrow> string \<Rightarrow> bool" where
  "honest_inv env c sessionId \<longleftrightarrow>
     (\<forall>i. holder (sessionShards c sessionId i) = 0 \<longrightarrow> sessionShards c sessionId i = zero_shard) \<and>
     (isComplete (sessions c sessionId) \<longrightarrow>
        getVerifiedShardCount c sessionId = threshold (sessions c sessionId)) \<and>
     (isComplete (sessions c sessionId) \<longrightarrow>
        combineShards env c sessionId = Inr (decryptedValue (sessions c sessionId)))"

subsection \<open>A concrete library and a concrete run\<close>

text \<open>
  A library in which the handle \<open>16 * v + k\<close> (with \<open>0 < k < 16\<close>) is a ciphertext of
  \<open>v\<close>: an input is accepted with any non-empty proof, a decryption is signed for one
  initialised handle and its cleartext, and the decryption proof of a handle encodes
  its cleartext.
\<close>

definition demo_clear :: "euint32 \<Rightarrow> uint32" where
  "demo_clear h = of_nat (h div 16)"

definition demo_fhe :: fhe where
  "demo_fhe =
     \<lparr>fromExternal = (\<lambda>ext inputProof sender. if inputProof = [] then None else Some ext),
      checkSignatures = (\<lambda>cts clear proof.
         case cts of
           [h] \<Rightarrow> h \<noteq> 0 \<and> proof \<noteq> [] \<and> abi_decode_uint32 clear = Some (demo_clear h)
         | _ \<Rightarrow> False),
      getDecryptionProof = (\<lambda>h. abi_encode_uint32 (demo_clear h))\<rparr>"

text \<open>The same library, except that it signs whatever it is asked.\<close>

definition lax_fhe :: fhe where
  "lax_fhe = demo_fhe\<lparr>checkSignatures := (\<lambda>cts clear proof. True)\<rparr>"

text \<open>
  A session \<open>s\<close> with threshold 3 of 5 and candidates 7 and 42, five shards with the
  cleartexts 7, 42, 7, 42, 7, and the verification of the shards 0, 1 and 2.
\<close>

definition demo_setup :: "call list" where
  "demo_setup =
     [CreateSession 9 1000 ''s'' ''wallet'' 3 5 7 42 ''demo'',
      AddShard 1 ''s'' 0 (16 * 7 + 1) [1],
      AddShard 2 ''s'' 1 (16 * 42 + 2) [1],
      AddShard 3 ''s'' 2 (16 * 7 + 3) [1],
      AddShard 4 ''s'' 3 (16 * 42 + 4) [1],
      AddShard 5 ''s'' 4 (16 * 7 + 5) [1]]"

definition demo_verify :: "call list" where
  "demo_verify =
     [VerifyShard ''s'' 0 (abi_encode_uint32 7) [1],
      VerifyShard ''s'' 1 (abi_encode_uint32 42) [1],
      VerifyShard ''s'' 2 (abi_encode_uint32 7) [1]]"

definition demo_added :: contract where
  "demo_added = run demo_fhe demo_setup init_contract"

definition demo_complete :: contract where
  "demo_complete = run demo_fhe demo_verify demo_added"

text \<open>The session \<open>s\<close> before any shard is added.\<close>

definition demo_created :: contract where
  "demo_created = run demo_fhe [CreateSession 9 1000 ''s'' ''wallet'' 3 5 7 42 ''demo''] init_contract"

text \<open>A session \<open>w\<close> with threshold 1 of 1 and no shard yet.\<close>

definition demo_single :: contract where
  "demo_single = run demo_fhe [CreateSession 9 1000 ''w'' ''single'' 1 1 7 42 ''demo''] init_contract"

text \<open>A session \<open>t\<close> with the candidates 7 and 42 and one shard, whose cleartext is 13.\<close>

definition demo_thirteen :: contract where
  "demo_thirteen =
     run demo_fhe [CreateSession 9 1000 ''t'' ''other'' 1 1 7 42 ''demo'',
                   AddShard 1 ''t'' 0 (16 * 13 + 1) [1]] init_contract"

text \<open>A session \<open>u\<close> created with the empty name.\<close>

definition demo_unnamed :: contract where
  "demo_unnamed = run demo_fhe [CreateSession 9 1000 ''u'' [] 1 1 7 42 ''first''] init_contract"

text \<open>The same three shards verified in the order 2, 0, 1.\<close>

definition demo_permuted :: contract where
  "demo_permuted =
     run demo_fhe [VerifyShard ''s'' 2 (abi_encode_uint32 7) [1],
                   VerifyShard ''s'' 0 (abi_encode_uint32 7) [1],
                   VerifyShard ''s'' 1 (abi_encode_uint32 42) [1]] demo_added"

section \<open>Facts about the model\<close>

subsection \<open>ABI encoding\<close>

lemma be_nat_snoc: "be_nat (bs @ [b]) = be_nat bs * 256 + unat b"
  by (simp add: be_nat_def)

lemma length_be_bytes [simp]: "length (be_bytes k n) = k"
  by (induction k arbitrary: n) auto

lemma be_nat_be_bytes: "be_nat (be_bytes k n) = n mod 256 ^ k"
proof (induction k arbitrary: n)
  case 0
  show ?case by (simp add: be_nat_def)
next
  case (Suc k)
  have "unat (of_nat (n mod 256) :: 8 word) = n mod 256"
    by (simp add: unat_of_nat)
  then have "be_nat (be_bytes (Suc k) n) = (n div 256) mod 256 ^ k * 256 + n mod 256"
    by (simp add: be_nat_snoc Suc.IH)
  also have "\<dots> = n mod 256 ^ Suc k"
    by (simp add: mod_mult2_eq)
  finally show ?case .
qed

lemma abi_decode_encode [simp]: "abi_decode_uint32 (abi_encode_uint32 v) = Some v"
proof -
  have "unat v < 2 ^ 32"
    using unsigned_less [of v] by simp
  moreover have "(256::nat) ^ 32 = 2 ^ 256" by simp
  ultimately have "unat v mod 256 ^ 32 = unat v"
    by simp
  then show ?thesis
    using \<open>unat v < 2 ^ 32\<close>
    by (simp add: abi_decode_uint32_def abi_encode_uint32_def be_nat_be_bytes)
qed

subsection \<open>The loops\<close>

lemma count_loop_eq:
  "getVerifiedShardCount_loop c sid i n =
     n + length (filter (\<lambda>j. isVerified (sessionShards c sid j)) [i..<totalShards (sessions c sid)])"
proof (induction c sid i n rule: getVerifiedShardCount_loop.induct)
  case (1 c sid i n)
  show ?case
  proof (cases "i < totalShards (sessions c sid)")
    case True
    then have "[i..<totalShards (sessions c sid)] = i # [i + 1..<totalShards (sessions c sid)]"
      by (simp add: upt_conv_Cons)
    with True 1 show ?thesis
      by (subst getVerifiedShardCount_loop.simps) simp
  next
    case False
    then show ?thesis
      by (subst getVerifiedShardCount_loop.simps) simp
  qed
qed

lemma getVerifiedShardCount_length:
  "getVerifiedShardCount c sid = length (verifiedIndices c sid)"
  by (simp add: getVerifiedShardCount_def verifiedIndices_def count_loop_eq)

lemma getVerifiedShardCount_card:
  "getVerifiedShardCount c sid =
     card {j. j < totalShards (sessions c sid) \<and> isVerified (sessionShards c sid j)}"
proof -
  have "distinct (verifiedIndices c sid)"
    by (simp add: verifiedIndices_def)
  then have "length (verifiedIndices c sid) = card (set (verifiedIndices c sid))"
    by (simp add: distinct_card)
  moreover have "set (verifiedIndices c sid) =
      {j. j < totalShards (sessions c sid) \<and> isVerified (sessionShards c sid j)}"
    by (auto simp: verifiedIndices_def)
  ultimately show ?thesis
    by (simp add: getVerifiedShardCount_length)
qed

lemma combine_loop_eq:
  "combineShards_loop env c sid i acc =
     (case those (map (shardValue env c sid)
                    (filter (\<lambda>j. isVerified (sessionShards c sid j)) [i..<totalShards (sessions c sid)])) of
        None \<Rightarrow> Inl AbiDecodeFailed
      | Some vs \<Rightarrow> Inr (fold (XOR) vs acc))"
proof (induction env c sid i acc rule: combineShards_loop.induct)
  case (1 env c sid i acc)
  show ?case
  proof (cases "i < totalShards (sessions c sid)")
    case True
    then have upt: "[i..<totalShards (sessions c sid)] = i # [i + 1..<totalShards (sessions c sid)]"
      by (simp add: upt_conv_Cons)
    show ?thesis
    proof (cases "isVerified (sessionShards c sid i)")
      case False
      with True 1(2) upt show ?thesis
        by (subst combineShards_loop.simps) simp
    next
      case verified: True
      show ?thesis
      proof (cases "shardValue env c sid i")
        case None
        with True verified upt show ?thesis
          by (subst combineShards_loop.simps) (simp add: shardValue_def)
      next
        case (Some v)
        then have dec: "abi_decode_uint32 (getDecryptionProof env (encryptedValue (sessionShards c sid i))) = Some v"
          by (simp add: shardValue_def)
        from 1(1) [OF True verified dec] True verified upt Some dec show ?thesis
          by (subst combineShards_loop.simps) (simp add: xor.commute split: option.splits)
      qed
    qed
  next
    case False
    then show ?thesis
      by (subst combineShards_loop.simps) simp
  qed
qed

lemma fold_xor_acc: "fold (XOR) vs (acc :: uint32) = acc XOR fold (XOR) vs 0"
proof (induction vs arbitrary: acc)
  case Nil
  show ?case by simp
next
  case (Cons v vs)
  have "fold (XOR) (v # vs) acc = fold (XOR) vs (v XOR acc)" by simp
  also have "\<dots> = (v XOR acc) XOR fold (XOR) vs 0" by (rule Cons.IH)
  also have "\<dots> = acc XOR (v XOR fold (XOR) vs 0)" by (simp add: ac_simps)
  also have "v XOR fold (XOR) vs 0 = fold (XOR) vs (v XOR 0)" using Cons.IH [of v] by simp
  finally show ?case by simp
qed

lemma combineShards_eq:
  "combineShards env c sid =
     (case those (verifiedShardValues env c sid) of
        None \<Rightarrow> Inl AbiDecodeFailed
      | Some vs \<Rightarrow> Inr (CombinationAlgorithm vs))"
  by (simp add: combineShards_def combine_loop_eq verifiedShardValues_def verifiedIndices_def
      CombinationAlgorithm_def split: option.splits)

lemma CombinationAlgorithm_Cons: "CombinationAlgorithm (v # vs) = v XOR CombinationAlgorithm vs"
  using fold_xor_acc [of vs "v XOR 0"] by (simp add: CombinationAlgorithm_def)

lemma CombinationAlgorithm_append:
  "CombinationAlgorithm (vs @ ws) = CombinationAlgorithm vs XOR CombinationAlgorithm ws"
  using fold_xor_acc [of ws "fold (XOR) vs 0"] by (simp add: CombinationAlgorithm_def)

lemma CombinationAlgorithm_mset:
  "mset vs = mset ws \<Longrightarrow> CombinationAlgorithm vs = CombinationAlgorithm ws"
proof (induction vs arbitrary: ws)
  case Nil
  then show ?case by simp
next
  case (Cons v vs)
  then have "v \<in> set ws"
    by (metis list.set_intros(1) mset_eq_setD)
  then obtain as bs where ws: "ws = as @ v # bs"
    by (meson split_list)
  with Cons.prems have "mset vs = mset (as @ bs)" by simp
  then have "CombinationAlgorithm vs = CombinationAlgorithm (as @ bs)" by (rule Cons.IH)
  then show ?case
    by (simp add: ws CombinationAlgorithm_Cons CombinationAlgorithm_append ac_simps)
qed

subsection \<open>What a successful call did\<close>

lemma createSession_InrD:
  assumes "createSession sender now sid nm thr tot pv1 pv2 descr c = Inr c'"
  shows "name (sessions c sid) = []" and "0 < thr" and "thr \<le> tot"
    and "sessions c' = (sessions c)(sid :=
           \<lparr>name = nm, threshold = thr, totalShards = tot, publicValue1 = pv1,
             publicValue2 = pv2, description = descr, creator = sender,
             timestamp = now, decryptedValue = 0, isComplete = False\<rparr>)"
    and "sessionShards c' = sessionShards c"
    and "sessionIds c' = sessionIds c @ [sid]"
    and "events c' = events c @ [SessionCreated sid sender]"
  using assms by (auto simp: createSession_def split: if_splits)

lemma addShard_InrD:
  assumes "addShard env sender sid idx ext pf c = Inr c'"
  shows "name (sessions c sid) \<noteq> []" and "idx < totalShards (sessions c sid)"
    and "holder (sessionShards c sid idx) = 0"
    and "\<exists>h. fromExternal env ext pf sender = Some h \<and> h \<noteq> 0 \<and>
           sessionShards c' = (sessionShards c)(sid := (sessionShards c sid)(idx :=
              \<lparr>encryptedValue = h, holder = sender, isVerified = False\<rparr>))"
    and "sessions c' = sessions c"
    and "sessionIds c' = sessionIds c"
    and "events c' = events c @ [ShardAdded sid idx sender]"
  using assms by (auto simp: addShard_def isInitialized_def split: if_splits option.splits)

lemma markVerified_simps [simp]:
  "sessions (markVerified sid idx c) = sessions c"
  "sessionIds (markVerified sid idx c) = sessionIds c"
  "shardCount (markVerified sid idx c) = shardCount c"
  "events (markVerified sid idx c) = events c @ [ShardVerified sid idx]"
  "sessionShards (markVerified sid idx c) sid' j =
     (if sid' = sid \<and> j = idx then (sessionShards c sid idx)\<lparr>isVerified := True\<rparr>
      else sessionShards c sid' j)"
  by (simp_all add: markVerified_def)

lemma verifyShard_InrD:
  assumes "verifyShard env sid idx cv pf c = Inr c'"
  shows "name (sessions c sid) \<noteq> []" and "idx < totalShards (sessions c sid)"
    and "\<not> isVerified (sessionShards c sid idx)"
    and "checkSignatures env [encryptedValue (sessionShards c sid idx)] cv pf"
    and "\<exists>v. abi_decode_uint32 cv = Some v \<and>
           (unat v = publicValue1 (sessions c sid) \<or> unat v = publicValue2 (sessions c sid))"
  using assms by (auto simp: verifyShard_def split: if_splits option.splits)

lemma verifyShard_Inr_cases:
  assumes "verifyShard env sid idx cv pf c = Inr c'"
  obtains (incomplete)
      "getVerifiedShardCount (markVerified sid idx c) sid < threshold (sessions c sid)"
      "c' = markVerified sid idx c"
    | (completes) v where
      "threshold (sessions c sid) \<le> getVerifiedShardCount (markVerified sid idx c) sid"
      "\<not> isComplete (sessions c sid)"
      "combineShards env (markVerified sid idx c) sid = Inr v"
      "sessions c' = (sessions c)(sid := (sessions c sid)\<lparr>decryptedValue := v, isComplete := True\<rparr>)"
      "sessionShards c' = sessionShards (markVerified sid idx c)"
      "sessionIds c' = sessionIds c"
      "events c' = events c @ [ShardVerified sid idx, SessionCompleted sid v]"
  using assms
  by (auto simp: verifyShard_def completeSession_def Let_def not_le
      split: if_splits option.splits sum.splits)

subsection \<open>The verified count after a write\<close>

lemma count_markVerified:
  assumes "idx < totalShards (sessions c sid)" and "\<not> isVerified (sessionShards c sid idx)"
  shows "getVerifiedShardCount (markVerified sid idx c) sid = getVerifiedShardCount c sid + 1"
proof -
  let ?V = "{j. j < totalShards (sessions c sid) \<and> isVerified (sessionShards c sid j)}"
  have "{j. j < totalShards (sessions (markVerified sid idx c) sid) \<and>
            isVerified (sessionShards (markVerified sid idx c) sid j)} = insert idx ?V"
    using assms(1) by auto
  moreover have "finite ?V" by simp
  moreover have "idx \<notin> ?V" using assms(2) by simp
  ultimately show ?thesis
    by (simp add: getVerifiedShardCount_card)
qed

lemma count_markVerified_other:
  "sid' \<noteq> sid \<Longrightarrow> getVerifiedShardCount (markVerified sid idx c) sid' = getVerifiedShardCount c sid'"
  by (simp add: getVerifiedShardCount_card)

lemma count_cong:
  assumes "totalShards (sessions c' sid) = totalShards (sessions c sid)"
    and "\<And>j. j < totalShards (sessions c sid) \<Longrightarrow>
           isVerified (sessionShards c' sid j) = isVerified (sessionShards c sid j)"
  shows "getVerifiedShardCount c' sid = getVerifiedShardCount c sid"
proof -
  have "{j. j < totalShards (sessions c' sid) \<and> isVerified (sessionShards c' sid j)} =
        {j. j < totalShards (sessions c sid) \<and> isVerified (sessionShards c sid j)}"
    using assms by auto
  then show ?thesis by (simp add: getVerifiedShardCount_card)
qed

lemma count_mono:
  assumes "totalShards (sessions c' sid) = totalShards (sessions c sid)"
    and "\<And>j. isVerified (sessionShards c' sid j) \<Longrightarrow> isVerified (sessionShards c sid j)"
  shows "getVerifiedShardCount c' sid \<le> getVerifiedShardCount c sid"
proof -
  have "{j. j < totalShards (sessions c' sid) \<and> isVerified (sessionShards c' sid j)} \<subseteq>
        {j. j < totalShards (sessions c sid) \<and> isVerified (sessionShards c sid j)}"
    using assms by auto
  then show ?thesis
    by (simp add: getVerifiedShardCount_card card_mono)
qed

lemma count_none:
  assumes "\<And>j. j < totalShards (sessions c sid) \<Longrightarrow> \<not> isVerified (sessionShards c sid j)"
  shows "getVerifiedShardCount c sid = 0"
  using assms by (simp add: getVerifiedShardCount_card)

lemma combine_cong:
  assumes "totalShards (sessions c' sid) = totalShards (sessions c sid)"
    and "\<And>j. j < totalShards (sessions c sid) \<Longrightarrow>
           isVerified (sessionShards c' sid j) = isVerified (sessionShards c sid j)"
    and "\<And>j. j < totalShards (sessions c sid) \<Longrightarrow> isVerified (sessionShards c sid j) \<Longrightarrow>
           encryptedValue (sessionShards c' sid j) = encryptedValue (sessionShards c sid j)"
  shows "combineShards env c' sid = combineShards env c sid"
proof -
  have idx: "verifiedIndices c' sid = verifiedIndices c sid"
    unfolding verifiedIndices_def assms(1)
    by (rule filter_cong) (use assms(2) in auto)
  have vals: "map (shardValue env c' sid) (verifiedIndices c sid) =
        map (shardValue env c sid) (verifiedIndices c sid)"
    by (rule map_cong) (use assms(3) in \<open>auto simp: verifiedIndices_def shardValue_def\<close>)
  show ?thesis
    unfolding combineShards_eq verifiedShardValues_def idx vals ..
qed

subsection \<open>The invariants hold in every reachable storage\<close>

lemma completions_append [simp]:
  "events c' = events c @ es \<Longrightarrow>
     completions c' sid = completions c sid + length (filter (isCompletionOf sid) es)"
  by (simp add: completions_def)

lemma session_inv_init: "session_inv init_contract sid"
  by (simp add: session_inv_def init_contract_def zero_session_def zero_shard_def
      completions_def getVerifiedShardCount_card)

lemma session_inv_createSession:
  assumes inv: "session_inv c s"
    and ok: "createSession sender now sid nm thr tot pv1 pv2 descr c = Inr c'"
  shows "session_inv c' s"
proof (cases "s = sid")
  case True
  note D = createSession_InrD [OF ok]
  from inv D(1) True have zero: "\<And>j. sessionShards c sid j = zero_shard"
    and nc: "\<not> isComplete (sessions c sid)"
    and compl: "completions c sid = 0"
    by (simp_all add: session_inv_def)
  have "getVerifiedShardCount c' sid = 0"
    by (rule count_none) (simp add: D(5) zero zero_shard_def)
  with D(2,3) zero compl show ?thesis
    by (simp add: True session_inv_def D(4,5) completions_append [OF D(7)] zero_shard_def)
next
  case False
  note D = createSession_InrD [OF ok]
  have "getVerifiedShardCount c' s = getVerifiedShardCount c s"
    by (rule count_cong) (simp_all add: D(4,5) False)
  with inv False show ?thesis
    by (simp add: session_inv_def D(4,5) completions_append [OF D(7)])
qed

lemma session_inv_addShard:
  assumes inv: "session_inv c s"
    and ok: "addShard env sender sid idx ext pf c = Inr c'"
  shows "session_inv c' s"
proof (cases "s = sid")
  case True
  note D = addShard_InrD [OF ok]
  from D(4) obtain h where sh: "sessionShards c' = (sessionShards c)(sid := (sessionShards c sid)(idx :=
              \<lparr>encryptedValue = h, holder = sender, isVerified = False\<rparr>))"
    by blast
  have "getVerifiedShardCount c' sid \<le> getVerifiedShardCount c sid"
    by (rule count_mono) (simp_all add: D(5) sh split: if_splits)
  with inv D(1,2) show ?thesis
    by (auto simp: True session_inv_def D(5) sh completions_append [OF D(7)])
next
  case False
  note D = addShard_InrD [OF ok]
  from D(4) obtain h where sh: "sessionShards c' = (sessionShards c)(sid := (sessionShards c sid)(idx :=
              \<lparr>encryptedValue = h, holder = sender, isVerified = False\<rparr>))"
    by blast
  have "getVerifiedShardCount c' s = getVerifiedShardCount c s"
    by (rule count_cong) (simp_all add: D(5) sh False)
  with inv False show ?thesis
    by (simp add: session_inv_def D(5) sh completions_append [OF D(7)])
qed

lemma session_inv_verifyShard:
  assumes inv: "session_inv c s"
    and ok: "verifyShard env sid idx cv pf c = Inr c'"
  shows "session_inv c' s"
proof (cases "s = sid")
  case True
  note D = verifyShard_InrD [OF ok]
  from ok show ?thesis
  proof (cases rule: verifyShard_Inr_cases)
    case incomplete
    with inv D(1,2) show ?thesis
      by (auto simp: True session_inv_def completions_def)
  next
    case (completes v)
    from inv completes(2) True have "completions c sid = 0"
      by (simp add: session_inv_def)
    with inv D(1,2) show ?thesis
      by (auto simp: True session_inv_def completes(4,5) completions_append [OF completes(7)])
  qed
next
  case False
  have same: "sessions c' s = sessions c s" "sessionShards c' s = sessionShards c s"
    "completions c' s = completions c s"
    using ok False
    by (cases rule: verifyShard_Inr_cases; auto simp: completions_def fun_eq_iff)+
  have "getVerifiedShardCount c' s = getVerifiedShardCount c s"
    by (rule count_cong) (simp_all add: same)
  with inv show ?thesis
    by (simp add: session_inv_def same)
qed

lemma reachable_session_inv: "reachable env c \<Longrightarrow> session_inv c sid"
proof (induction rule: reachable.induct)
  case reachable_init
  show ?case by (rule session_inv_init)
next
  case (reachable_step c cl c')
  then show ?case
    by (cases cl)
      (auto intro: session_inv_createSession session_inv_addShard session_inv_verifyShard)
qed

lemma honest_inv_init: "honest_inv env init_contract sid"
  by (simp add: honest_inv_def init_contract_def zero_session_def)

lemma honest_inv_createSession:
  assumes inv: "honest_inv env c s" and sinv: "session_inv c s"
    and ok: "createSession sender now sid nm thr tot pv1 pv2 descr c = Inr c'"
  shows "honest_inv env c' s"
proof (cases "s = sid")
  case True
  note D = createSession_InrD [OF ok]
  from inv show ?thesis
    by (simp add: True honest_inv_def D(4,5))
next
  case False
  note D = createSession_InrD [OF ok]
  have "getVerifiedShardCount c' s = getVerifiedShardCount c s"
    by (rule count_cong) (simp_all add: D(4,5) False)
  moreover have "combineShards env c' s = combineShards env c s"
    by (rule combine_cong) (simp_all add: D(4,5) False)
  ultimately show ?thesis
    using inv False by (simp add: honest_inv_def D(4,5))
qed

lemma honest_inv_addShard:
  assumes inv: "honest_inv env c s"
    and sender: "sender \<noteq> 0"
    and ok: "addShard env sender sid idx ext pf c = Inr c'"
  shows "honest_inv env c' s"
proof -
  note D = addShard_InrD [OF ok]
  from D(4) obtain h where sh: "sessionShards c' = (sessionShards c)(sid := (sessionShards c sid)(idx :=
              \<lparr>encryptedValue = h, holder = sender, isVerified = False\<rparr>))"
    by blast
  have unver: "\<not> isVerified (sessionShards c sid idx)" if "s = sid"
  proof -
    from inv that D(3) have "sessionShards c sid idx = zero_shard"
      by (simp add: honest_inv_def)
    then show ?thesis by (simp add: zero_shard_def)
  qed
  have "getVerifiedShardCount c' s = getVerifiedShardCount c s"
    by (rule count_cong) (use unver in \<open>auto simp: D(5) sh\<close>)
  moreover have "combineShards env c' s = combineShards env c s"
    by (rule combine_cong) (use unver in \<open>auto simp: D(5) sh\<close>)
  ultimately show ?thesis
    using inv sender by (auto simp: honest_inv_def D(5) sh)
qed

lemma honest_inv_verifyShard:
  assumes inv: "honest_inv env c s" and sinv: "session_inv c s"
    and env: "rejects_zero_handle env"
    and ok: "verifyShard env sid idx cv pf c = Inr c'"
  shows "honest_inv env c' s"
proof (cases "s = sid")
  case True
  note D = verifyShard_InrD [OF ok]
  have handle: "encryptedValue (sessionShards c sid idx) \<noteq> 0"
  proof
    assume "encryptedValue (sessionShards c sid idx) = 0"
    with D(4) have "checkSignatures env [0] cv pf" by simp
    with env show False by (simp add: rejects_zero_handle_def)
  qed
  have holder: "holder (sessionShards c sid idx) \<noteq> 0"
  proof
    assume "holder (sessionShards c sid idx) = 0"
    with inv True have "sessionShards c sid idx = zero_shard"
      by (simp add: honest_inv_def)
    with handle show False by (simp add: zero_shard_def)
  qed
  have cnt: "getVerifiedShardCount (markVerified sid idx c) sid = getVerifiedShardCount c sid + 1"
    using D(2,3) by (rule count_markVerified)
  from ok show ?thesis
  proof (cases rule: verifyShard_Inr_cases)
    case incomplete
    with inv cnt have "\<not> isComplete (sessions c sid)"
      by (auto simp: True honest_inv_def)
    with inv holder incomplete show ?thesis
      by (auto simp: True honest_inv_def)
  next
    case (completes v)
    from sinv completes(2) D(1) have "getVerifiedShardCount c sid < threshold (sessions c sid)"
      by (simp add: True session_inv_def)
    with cnt completes(1)
    have eq: "getVerifiedShardCount (markVerified sid idx c) sid = threshold (sessions c sid)"
      by simp
    have "getVerifiedShardCount c' sid = getVerifiedShardCount (markVerified sid idx c) sid"
      by (rule count_cong) (simp_all add: completes(4,5))
    moreover have "combineShards env c' sid = combineShards env (markVerified sid idx c) sid"
      by (rule combine_cong) (simp_all add: completes(4,5))
    ultimately show ?thesis
      using inv holder eq completes(3)
      by (auto simp: True honest_inv_def completes(4,5))
  qed
next
  case False
  have same: "sessions c' s = sessions c s" "sessionShards c' s = sessionShards c s"
    using ok False
    by (cases rule: verifyShard_Inr_cases; auto simp: fun_eq_iff)+
  have "getVerifiedShardCount c' s = getVerifiedShardCount c s"
    by (rule count_cong) (simp_all add: same)
  moreover have "combineShards env c' s = combineShards env c s"
    by (rule combine_cong) (simp_all add: same)
  ultimately show ?thesis
    using inv by (simp add: honest_inv_def same)
qed

lemma reachable_honest_inv:
  assumes "rejects_zero_handle env" and "reachable env c"
  shows "honest_inv env c sid"
  using assms(2)
proof (induction rule: reachable.induct)
  case reachable_init
  show ?case by (rule honest_inv_init)
next
  case (reachable_step c cl c')
  note sinv = reachable_session_inv [OF reachable_step.hyps(1), of sid]
  show ?case
  proof (cases cl)
    case (CreateSession sender now s nm thr tot pv1 pv2 descr)
    with reachable_step sinv show ?thesis
      by (auto intro: honest_inv_createSession)
  next
    case (AddShard sender s idx ext pf)
    with reachable_step show ?thesis
      by (auto intro: honest_inv_addShard)
  next
    case (VerifyShard s idx cv pf)
    with reachable_step sinv assms(1) show ?thesis
      by (auto intro: honest_inv_verifyShard)
  qed
qed

subsection \<open>Runs of calls\<close>

lemma reachable_transact:
  "reachable env c \<Longrightarrow> caller_ok cl \<Longrightarrow> reachable env (transact env cl c)"
  by (cases "perform env cl c") (auto simp: transact_def intro: reachable_step)

lemma reachable_run:
  "reachable env c \<Longrightarrow> list_all caller_ok cls \<Longrightarrow> reachable env (run env cls c)"
  by (induction cls arbitrary: c) (auto intro: reachable_transact)

subsection \<open>The concrete run\<close>

lemmas op_defs = transact_def createSession_def addShard_def verifyShard_def markVerified_def
  completeSession_def combineShards_def getVerifiedShardCount_def
  getVerifiedShardCount_loop.simps combineShards_loop.simps isInitialized_def

lemmas demo_defs = demo_fhe_def lax_fhe_def demo_clear_def demo_setup_def demo_verify_def
  init_contract_def zero_session_def zero_shard_def

lemma demo_added_sessions:
  "sessions demo_added ''s'' =
     \<lparr>name = ''wallet'', threshold = 3, totalShards = 5, publicValue1 = 7, publicValue2 = 42,
       description = ''demo'', creator = 9, timestamp = 1000, decryptedValue = 0,
       isComplete = False\<rparr>"
  by (simp add: demo_added_def demo_defs op_defs)

lemma demo_added_shards:
  "sessionShards demo_added ''s'' =
     (\<lambda>i. if i = 0 then \<lparr>encryptedValue = 113, holder = 1, isVerified = False\<rparr>
          else if i = 1 then \<lparr>encryptedValue = 674, holder = 2, isVerified = False\<rparr>
          else if i = 2 then \<lparr>encryptedValue = 115, holder = 3, isVerified = False\<rparr>
          else if i = 3 then \<lparr>encryptedValue = 676, holder = 4, isVerified = False\<rparr>
          else if i = 4 then \<lparr>encryptedValue = 117, holder = 5, isVerified = False\<rparr>
          else zero_shard)"
  by (rule ext) (simp add: demo_added_def demo_defs op_defs)

lemma demo_complete_sessions:
  "sessions demo_complete ''s'' =
     \<lparr>name = ''wallet'', threshold = 3, totalShards = 5, publicValue1 = 7, publicValue2 = 42,
       description = ''demo'', creator = 9, timestamp = 1000, decryptedValue = 42,
       isComplete = True\<rparr>"
  by (simp add: demo_complete_def demo_added_def demo_defs op_defs)

lemma demo_complete_shards:
  "sessionShards demo_complete ''s'' =
     (\<lambda>i. if i = 0 then \<lparr>encryptedValue = 113, holder = 1, isVerified = True\<rparr>
          else if i = 1 then \<lparr>encryptedValue = 674, holder = 2, isVerified = True\<rparr>
          else if i = 2 then \<lparr>encryptedValue = 115, holder = 3, isVerified = True\<rparr>
          else if i = 3 then \<lparr>encryptedValue = 676, holder = 4, isVerified = False\<rparr>
          else if i = 4 then \<lparr>encryptedValue = 117, holder = 5, isVerified = False\<rparr>
          else zero_shard)"
  by (rule ext) (simp add: demo_complete_def demo_added_def demo_defs op_defs)

lemma demo_complete_events:
  "events demo_complete =
     [SessionCreated ''s'' 9, ShardAdded ''s'' 0 1, ShardAdded ''s'' 1 2, ShardAdded ''s'' 2 3,
      ShardAdded ''s'' 3 4, ShardAdded ''s'' 4 5, ShardVerified ''s'' 0, ShardVerified ''s'' 1,
      ShardVerified ''s'' 2, SessionCompleted ''s'' 42]"
  by (simp add: demo_complete_def demo_added_def demo_defs op_defs)

lemma demo_rejects_zero_handle: "rejects_zero_handle demo_fhe"
  by (simp add: rejects_zero_handle_def demo_fhe_def)

lemma demo_added_reachable: "reachable demo_fhe demo_added"
  unfolding demo_added_def
  by (rule reachable_run [OF reachable_init]) (simp add: demo_setup_def)

lemma demo_complete_reachable: "reachable demo_fhe demo_complete"
  unfolding demo_complete_def
  by (rule reachable_run [OF demo_added_reachable]) (simp add: demo_verify_def)

section \<open>The claims\<close>

text \<open>
  Claim C6.  A session with threshold 3, 5 shards in total and the candidates 7 and 42
  is created in the empty storage, and five shards are added whose cleartexts are
  7, 42, 7, 42, 7.  The shards 0, 1 and 2 are verified in that order, each with a proof
  the library accepts.  Then every one of the three calls returns and raises the verified
  count by one; after the first and the second the session is not complete; the third
  completes it, with the reconstructed value \<open>7 XOR 42 XOR 7 = 42\<close>, and emits
  \<open>SessionCompleted\<close> with that value.
\<close>

theorem C6_three_of_five_scenario:
  fixes env :: fhe and sid name' description' :: string and creator' now :: nat
  assumes named: "name' \<noteq> []"
    and inputs: "fromExternal env eA pA gA = Some hA" "fromExternal env eB pB gB = Some hB"
      "fromExternal env eC pC gC = Some hC" "fromExternal env eD pD gD = Some hD"
      "fromExternal env eE pE gE = Some hE"
    and handles: "hA \<noteq> 0" "hB \<noteq> 0" "hC \<noteq> 0" "hD \<noteq> 0" "hE \<noteq> 0"
    and cleartexts: "abi_decode_uint32 (getDecryptionProof env hA) = Some 7"
      "abi_decode_uint32 (getDecryptionProof env hB) = Some 42"
      "abi_decode_uint32 (getDecryptionProof env hC) = Some 7"
      "abi_decode_uint32 (getDecryptionProof env hD) = Some 42"
      "abi_decode_uint32 (getDecryptionProof env hE) = Some 7"
    and proofs: "checkSignatures env [hA] cvA dpA" "checkSignatures env [hB] cvB dpB"
      "checkSignatures env [hC] cvC dpC"
    and clears: "abi_decode_uint32 cvA = Some 7" "abi_decode_uint32 cvB = Some 42"
      "abi_decode_uint32 cvC = Some 7"
  defines "added \<equiv> run env
      [CreateSession creator' now sid name' 3 5 7 42 description',
       AddShard gA sid 0 eA pA, AddShard gB sid 1 eB pB, AddShard gC sid 2 eC pC,
       AddShard gD sid 3 eD pD, AddShard gE sid 4 eE pE] init_contract"
  defines "first \<equiv> transact env (VerifyShard sid 0 cvA dpA) added"
  defines "second \<equiv> transact env (VerifyShard sid 1 cvB dpB) first"
  defines "third \<equiv> transact env (VerifyShard sid 2 cvC dpC) second"
  shows "getVerifiedShardCount first sid = 1 \<and> \<not> isComplete (sessions first sid) \<and>
         getVerifiedShardCount second sid = 2 \<and> \<not> isComplete (sessions second sid) \<and>
         getVerifiedShardCount third sid = 3 \<and> isComplete (sessions third sid) \<and>
         decryptedValue (sessions third sid) = 7 XOR 42 XOR 7 \<and>
         decryptedValue (sessions third sid) = 42 \<and>
         events third = events second @ [ShardVerified sid 2, SessionCompleted sid 42]"
proof -
  have s0: "sessions added sid = \<lparr>name = name', threshold = 3, totalShards = 5, publicValue1 = 7,
       publicValue2 = 42, description = description', creator = creator', timestamp = now,
       decryptedValue = 0, isComplete = False\<rparr>"
    using named inputs handles
    by (simp add: added_def op_defs init_contract_def zero_session_def zero_shard_def)
  have sh0: "sessionShards added sid =
     (\<lambda>i. if i = 0 then \<lparr>encryptedValue = hA, holder = gA, isVerified = False\<rparr>
          else if i = 1 then \<lparr>encryptedValue = hB, holder = gB, isVerified = False\<rparr>
          else if i = 2 then \<lparr>encryptedValue = hC, holder = gC, isVerified = False\<rparr>
          else if i = 3 then \<lparr>encryptedValue = hD, holder = gD, isVerified = False\<rparr>
          else if i = 4 then \<lparr>encryptedValue = hE, holder = gE, isVerified = False\<rparr>
          else zero_shard)"
    using named inputs handles
    by (intro ext) (simp add: added_def op_defs init_contract_def zero_session_def zero_shard_def)
  note verify_defs = transact_def verifyShard_def completeSession_def combineShards_def
    getVerifiedShardCount_def getVerifiedShardCount_loop.simps combineShards_loop.simps
  have first: "first = markVerified sid 0 added"
    using named proofs(1) clears(1)
    by (simp add: first_def verify_defs s0 sh0)
  have second: "second = markVerified sid 1 first"
    using named proofs(2) clears(2)
    by (simp add: second_def first verify_defs s0 sh0)
  have third: "third = (markVerified sid 2 second)\<lparr>
       sessions := (sessions second)(sid := (sessions second sid)\<lparr>decryptedValue := 42, isComplete := True\<rparr>),
       events := events second @ [ShardVerified sid 2, SessionCompleted sid 42]\<rparr>"
    using named proofs(3) clears(3) cleartexts(1-3)
    by (simp add: third_def second first verify_defs s0 sh0)
  show ?thesis
    by (simp add: third second first s0 sh0 getVerifiedShardCount_def getVerifiedShardCount_loop.simps)
qed

text \<open>The scenario in the concrete library.\<close>

theorem C6_three_of_five_scenario_witness:
  "\<not> isComplete (sessions (run demo_fhe (take 1 demo_verify) demo_added) ''s'') \<and>
   \<not> isComplete (sessions (run demo_fhe (take 2 demo_verify) demo_added) ''s'') \<and>
   isComplete (sessions demo_complete ''s'') \<and>
   decryptedValue (sessions demo_complete ''s'') = 42"
  using C6_three_of_five_scenario [where env = demo_fhe and name' = "''wallet''" and sid = "''s''"
      and creator' = 9 and now = 1000 and description' = "''demo''"
      and eA = 113 and pA = "[1]" and gA = 1 and hA = 113
      and eB = 674 and pB = "[1]" and gB = 2 and hB = 674
      and eC = 115 and pC = "[1]" and gC = 3 and hC = 115
      and eD = 676 and pD = "[1]" and gD = 4 and hD = 676
      and eE = 117 and pE = "[1]" and gE = 5 and hE = 117
      and cvA = "abi_encode_uint32 7" and dpA = "[1]"
      and cvB = "abi_encode_uint32 42" and dpB = "[1]"
      and cvC = "abi_encode_uint32 7" and dpC = "[1]"]
  by (simp add: demo_complete_def demo_added_def demo_setup_def demo_verify_def demo_fhe_def
      demo_clear_def)

lemma demo_thirteen_sessions:
  "sessions demo_thirteen ''t'' =
     \<lparr>name = ''other'', threshold = 1, totalShards = 1, publicValue1 = 7, publicValue2 = 42,
       description = ''demo'', creator = 9, timestamp = 1000, decryptedValue = 0,
       isComplete = False\<rparr>"
  by (simp add: demo_thirteen_def demo_defs op_defs)

lemma demo_thirteen_shards:
  "sessionShards demo_thirteen ''t'' 0 = \<lparr>encryptedValue = 209, holder = 1, isVerified = False\<rparr>"
  by (simp add: demo_thirteen_def demo_defs op_defs)

text \<open>
  Claim C4.  A call of \<open>verifyShard\<close> whose clear value decodes to a value that is
  neither \<open>publicValue1\<close> nor \<open>publicValue2\<close> reverts, whatever the proof: the storage
  and the log stay as they were, so the shard stays unverified, the verified count is
  unchanged and the session is as complete as before.  When the session exists, the
  index is valid, the shard is not verified yet and the library accepts the proof, the
  error is \<open>InvalidShardValue\<close>.
\<close>

theorem C4_value_outside_candidates_rejected:
  assumes "abi_decode_uint32 cv = Some v"
    and "unat v \<noteq> publicValue1 (sessions c sid)"
    and "unat v \<noteq> publicValue2 (sessions c sid)"
  shows "(\<exists>e. verifyShard env sid idx cv pf c = Inl e) \<and>
         (name (sessions c sid) \<noteq> [] \<and> idx < totalShards (sessions c sid) \<and>
          \<not> isVerified (sessionShards c sid idx) \<and>
          checkSignatures env [encryptedValue (sessionShards c sid idx)] cv pf
            \<longrightarrow> verifyShard env sid idx cv pf c = Inl InvalidShardValue) \<and>
         transact env (VerifyShard sid idx cv pf) c = c \<and>
         isVerified (sessionShards (transact env (VerifyShard sid idx cv pf) c) sid idx) =
           isVerified (sessionShards c sid idx) \<and>
         getVerifiedShardCount (transact env (VerifyShard sid idx cv pf) c) sid =
           getVerifiedShardCount c sid \<and>
         isComplete (sessions (transact env (VerifyShard sid idx cv pf) c) sid) =
           isComplete (sessions c sid)"
proof -
  have fails: "\<exists>e. verifyShard env sid idx cv pf c = Inl e"
    using assms by (simp add: verifyShard_def)
  then have same: "transact env (VerifyShard sid idx cv pf) c = c"
    by (auto simp: transact_def)
  have "verifyShard env sid idx cv pf c = Inl InvalidShardValue"
    if "name (sessions c sid) \<noteq> []" "idx < totalShards (sessions c sid)"
      "\<not> isVerified (sessionShards c sid idx)"
      "checkSignatures env [encryptedValue (sessionShards c sid idx)] cv pf"
    using assms that by (simp add: verifyShard_def)
  with fails same show ?thesis
    by simp
qed

text \<open>The shard of session \<open>t\<close> decrypts to 13, and the library signs that.\<close>

theorem C4_value_outside_candidates_rejected_witness:
  "checkSignatures demo_fhe [encryptedValue (sessionShards demo_thirteen ''t'' 0)]
     (abi_encode_uint32 13) [1] \<and>
   verifyShard demo_fhe ''t'' 0 (abi_encode_uint32 13) [1] demo_thirteen = Inl InvalidShardValue \<and>
   transact demo_fhe (VerifyShard ''t'' 0 (abi_encode_uint32 13) [1]) demo_thirteen = demo_thirteen \<and>
   \<not> isComplete (sessions (transact demo_fhe (VerifyShard ''t'' 0 (abi_encode_uint32 13) [1]) demo_thirteen) ''t'')"
  using C4_value_outside_candidates_rejected [of "abi_encode_uint32 13" 13 demo_thirteen "''t''"
      demo_fhe 0 "[1]"]
  by (simp add: demo_thirteen_sessions demo_thirteen_shards demo_fhe_def demo_clear_def)

subsection \<open>What no call undoes\<close>

lemma perform_shard_cases:
  assumes "perform env cl c = Inr c'"
  shows "sessionShards c' sid idx = sessionShards c sid idx \<or>
         sessionShards c' sid idx = (sessionShards c sid idx)\<lparr>isVerified := True\<rparr> \<or>
         (holder (sessionShards c sid idx) = 0 \<and>
          (\<exists>sender ext pf. cl = AddShard sender sid idx ext pf \<and>
             holder (sessionShards c' sid idx) = sender \<and>
             \<not> isVerified (sessionShards c' sid idx)))"
proof (cases cl)
  case (CreateSession sender now s nm thr tot pv1 pv2 descr)
  with assms show ?thesis
    by (simp add: createSession_InrD(5))
next
  case (AddShard sender s i ext pf)
  with assms have ok: "addShard env sender s i ext pf c = Inr c'" by simp
  show ?thesis
  proof (cases "s = sid \<and> i = idx")
    case True
    with addShard_InrD(3,4) [OF ok] AddShard show ?thesis
      by auto
  next
    case False
    with addShard_InrD(4) [OF ok] have "sessionShards c' sid idx = sessionShards c sid idx"
      by auto
    then show ?thesis by simp
  qed
next
  case (VerifyShard s i cv pf)
  with assms have "verifyShard env s i cv pf c = Inr c'" by simp
  then show ?thesis
    by (cases rule: verifyShard_Inr_cases) (auto simp: fun_eq_iff)
qed

lemma transact_occupied:
  assumes "holder (sessionShards c sid idx) \<noteq> 0"
  shows "holder (sessionShards (transact env cl c) sid idx) = holder (sessionShards c sid idx) \<and>
         encryptedValue (sessionShards (transact env cl c) sid idx) =
           encryptedValue (sessionShards c sid idx)"
proof (cases "perform env cl c")
  case (Inl e)
  then show ?thesis by (simp add: transact_def)
next
  case (Inr c')
  from perform_shard_cases [OF Inr, of sid idx] assms Inr show ?thesis
    by (auto simp: transact_def)
qed

lemma run_occupied:
  assumes "holder (sessionShards c sid idx) \<noteq> 0"
  shows "holder (sessionShards (run env cls c) sid idx) = holder (sessionShards c sid idx) \<and>
         encryptedValue (sessionShards (run env cls c) sid idx) =
           encryptedValue (sessionShards c sid idx)"
  using assms
proof (induction cls arbitrary: c)
  case Nil
  show ?case by simp
next
  case (Cons cl cls)
  from transact_occupied [OF Cons.prems, of env cl] Cons.IH [of "transact env cl c"] Cons.prems
  show ?case by simp
qed

lemma addShard_occupied:
  assumes "reachable env c" and "holder (sessionShards c sid idx) \<noteq> 0"
  shows "addShard env sender sid idx ext pf c = Inl ShardSlotOccupied"
proof -
  from reachable_session_inv [OF assms(1), of sid] assms(2)
  have "idx < totalShards (sessions c sid)" and "name (sessions c sid) \<noteq> []"
    by (auto simp: session_inv_def zero_shard_def)
  with assms(2) show ?thesis
    by (simp add: addShard_def)
qed

text \<open>
  Claim C8.  When a call of \<open>addShard\<close> by a caller returns, the slot is occupied from
  then on: after any further calls the slot still holds the ciphertext and the holder
  that call stored, every call of \<open>addShard\<close> on the slot reverts with
  \<open>ShardSlotOccupied\<close>, and such a call leaves the storage, and with it the stored shard,
  as it was.  So at most one \<open>addShard\<close> returns for a slot.
\<close>

theorem C8_slot_written_once:
  assumes "reachable env c" and "sender \<noteq> 0"
    and "addShard env sender sid idx ext pf c = Inr c'"
    and "list_all caller_ok cls"
  shows "holder (sessionShards (run env cls c') sid idx) = sender \<and>
         encryptedValue (sessionShards (run env cls c') sid idx) =
           encryptedValue (sessionShards c' sid idx) \<and>
         addShard env sender' sid idx ext' pf' (run env cls c') = Inl ShardSlotOccupied \<and>
         transact env (AddShard sender' sid idx ext' pf') (run env cls c') = run env cls c'"
proof -
  from addShard_InrD(4) [OF assms(3)] have holder: "holder (sessionShards c' sid idx) = sender"
    by auto
  with assms(2) have occ: "holder (sessionShards c' sid idx) \<noteq> 0"
    by simp
  have "perform env (AddShard sender sid idx ext pf) c = Inr c'"
    using assms(3) by simp
  moreover have "caller_ok (AddShard sender sid idx ext pf)"
    using assms(2) by simp
  ultimately have "reachable env c'"
    using assms(1) by (blast intro: reachable_step)
  then have reach: "reachable env (run env cls c')"
    using assms(4) by (rule reachable_run)
  note kept = run_occupied [OF occ, of env cls]
  with occ have "holder (sessionShards (run env cls c') sid idx) \<noteq> 0"
    by simp
  with reach have "addShard env sender' sid idx ext' pf' (run env cls c') = Inl ShardSlotOccupied"
    by (rule addShard_occupied)
  with kept holder show ?thesis
    by (simp add: transact_def)
qed

text \<open>
  In the concrete run, slot 3 of session \<open>s\<close> was written by guardian 4; after the three
  verifications a second shard for it is refused.
\<close>

theorem C8_slot_written_once_witness:
  "holder (sessionShards demo_complete ''s'' 3) = 4 \<and>
   addShard demo_fhe 6 ''s'' 3 (16 * 7 + 6) [1] demo_complete = Inl ShardSlotOccupied \<and>
   transact demo_fhe (AddShard 6 ''s'' 3 (16 * 7 + 6) [1]) demo_complete = demo_complete"
proof -
  let ?before = "run demo_fhe (take 4 demo_setup) init_contract"
  let ?after = "run demo_fhe (drop 4 demo_setup) ?before"
  have reach: "reachable demo_fhe ?before"
    by (rule reachable_run [OF reachable_init]) (simp add: demo_setup_def)
  have sender: "(4::nat) \<noteq> 0" by simp
  have ok: "addShard demo_fhe 4 ''s'' 3 (16 * 42 + 4) [1] ?before =
      Inr (transact demo_fhe (AddShard 4 ''s'' 3 (16 * 42 + 4) [1]) ?before)"
    by (simp add: demo_defs op_defs)
  have rest: "list_all caller_ok (drop 5 demo_setup @ demo_verify)"
    by (simp add: demo_setup_def demo_verify_def)
  have "run demo_fhe (drop 5 demo_setup @ demo_verify)
      (transact demo_fhe (AddShard 4 ''s'' 3 (16 * 42 + 4) [1]) ?before) = demo_complete"
    by (simp add: demo_complete_def demo_added_def demo_setup_def demo_verify_def)
  with C8_slot_written_once [OF reach sender ok rest, of 6 "16 * 7 + 6" "[1]"]
  show ?thesis by simp
qed

lemma transact_verified:
  assumes env: "rejects_zero_handle env" and reach: "reachable env c"
    and ver: "isVerified (sessionShards c sid idx)"
  shows "isVerified (sessionShards (transact env cl c) sid idx)"
proof (cases "perform env cl c")
  case (Inl e)
  with ver show ?thesis by (simp add: transact_def)
next
  case (Inr c')
  have "holder (sessionShards c sid idx) \<noteq> 0"
  proof
    assume "holder (sessionShards c sid idx) = 0"
    with reachable_honest_inv [OF env reach, of sid] have "sessionShards c sid idx = zero_shard"
      by (simp add: honest_inv_def)
    with ver show False by (simp add: zero_shard_def)
  qed
  with perform_shard_cases [OF Inr, of sid idx] ver Inr show ?thesis
    by (auto simp: transact_def)
qed

lemma run_verified:
  assumes "rejects_zero_handle env" and "reachable env c"
    and "isVerified (sessionShards c sid idx)" and "list_all caller_ok cls"
  shows "isVerified (sessionShards (run env cls c) sid idx)"
  using assms(2-)
proof (induction cls arbitrary: c)
  case Nil
  then show ?case by simp
next
  case (Cons cl cls)
  from Cons.prems have "reachable env (transact env cl c)"
    by (simp add: reachable_transact)
  moreover have "isVerified (sessionShards (transact env cl c) sid idx)"
    using assms(1) Cons.prems(1,2) by (rule transact_verified)
  ultimately show ?case
    using Cons.IH Cons.prems(3) by simp
qed

text \<open>
  Claim C7.  In a reachable storage, a call of \<open>verifyShard\<close> on a shard that is verified
  reverts with \<open>ShardAlreadyVerified\<close>: the storage and the log stay as they were, so the
  verified count is the same and no \<open>SessionCompleted\<close> event is added.  A verified shard
  stays verified through every later call (given a library that rejects the
  uninitialised handle), so its flag goes from false to true at most once.
\<close>

theorem C7_verified_shard_not_verified_again:
  assumes "reachable env c" and "isVerified (sessionShards c sid idx)"
  shows "verifyShard env sid idx cv pf c = Inl ShardAlreadyVerified \<and>
         transact env (VerifyShard sid idx cv pf) c = c \<and>
         getVerifiedShardCount (transact env (VerifyShard sid idx cv pf) c) sid =
           getVerifiedShardCount c sid \<and>
         completions (transact env (VerifyShard sid idx cv pf) c) sid = completions c sid \<and>
         (rejects_zero_handle env \<longrightarrow>
            (\<forall>cls. list_all caller_ok cls \<longrightarrow> isVerified (sessionShards (run env cls c) sid idx)))"
proof -
  from reachable_session_inv [OF assms(1), of sid] assms(2)
  have "idx < totalShards (sessions c sid)" and "name (sessions c sid) \<noteq> []"
    by (auto simp: session_inv_def zero_shard_def)
  with assms(2) have "verifyShard env sid idx cv pf c = Inl ShardAlreadyVerified"
    by (simp add: verifyShard_def)
  moreover from this have "transact env (VerifyShard sid idx cv pf) c = c"
    by (simp add: transact_def)
  moreover have "isVerified (sessionShards (run env cls c) sid idx)"
    if "rejects_zero_handle env" "list_all caller_ok cls" for cls
    using that(1) assms that(2) by (rule run_verified)
  ultimately show ?thesis
    by simp
qed

text \<open>
  In the concrete run, shard 0 of session \<open>s\<close> is verified; verifying it again is refused,
  and it is still verified after a further shard is verified for another session.
\<close>

theorem C7_verified_shard_not_verified_again_witness:
  "isVerified (sessionShards demo_complete ''s'' 0) \<and>
   verifyShard demo_fhe ''s'' 0 (abi_encode_uint32 7) [1] demo_complete = Inl ShardAlreadyVerified \<and>
   transact demo_fhe (VerifyShard ''s'' 0 (abi_encode_uint32 7) [1]) demo_complete = demo_complete \<and>
   isVerified (sessionShards
     (run demo_fhe [CreateSession 9 1000 ''t'' ''other'' 1 1 7 42 ''demo''] demo_complete) ''s'' 0)"
proof -
  have ver: "isVerified (sessionShards demo_complete ''s'' 0)"
    by (simp add: demo_complete_shards)
  have "list_all caller_ok [CreateSession 9 1000 ''t'' ''other'' 1 1 7 42 ''demo'']"
    by simp
  with C7_verified_shard_not_verified_again [OF demo_complete_reachable ver,
      of "abi_encode_uint32 7" "[1]"] demo_rejects_zero_handle ver
  show ?thesis by blast
qed

text \<open>
  The assumption on the library is needed for the last part.  With the library that signs
  everything, the empty slot 4 of session \<open>s\<close> is verified, and \<open>addShard\<close>, which finds
  no holder in the slot, then stores a shard there with the flag reset.
\<close>

lemma lax_library_resets_flag:
  "isVerified (sessionShards
     (run lax_fhe [VerifyShard ''s'' 4 (abi_encode_uint32 7) [1]] demo_created) ''s'' 4) \<and>
   \<not> isVerified (sessionShards
     (run lax_fhe [VerifyShard ''s'' 4 (abi_encode_uint32 7) [1],
                   AddShard 5 ''s'' 4 (16 * 7 + 5) [1]] demo_created) ''s'' 4)"
  by (simp add: demo_created_def demo_defs op_defs)

subsection \<open>A complete session\<close>

lemma complete_named:
  "reachable env c \<Longrightarrow> isComplete (sessions c sid) \<Longrightarrow> name (sessions c sid) \<noteq> []"
  using reachable_session_inv [of env c sid] by (auto simp: session_inv_def)

lemma transact_complete:
  assumes reach: "reachable env c" and compl: "isComplete (sessions c sid)"
  shows "sessions (transact env cl c) sid = sessions c sid"
proof (cases "perform env cl c")
  case (Inl e)
  then show ?thesis by (simp add: transact_def)
next
  case (Inr c')
  note named = complete_named [OF reach compl]
  have "sessions c' sid = sessions c sid"
  proof (cases cl)
    case (CreateSession sender now s nm thr tot pv1 pv2 descr)
    with Inr have ok: "createSession sender now s nm thr tot pv1 pv2 descr c = Inr c'"
      by simp
    from createSession_InrD(1) [OF ok] named have "s \<noteq> sid" by auto
    with createSession_InrD(4) [OF ok] show ?thesis by simp
  next
    case (AddShard sender s i ext pf)
    with Inr have "addShard env sender s i ext pf c = Inr c'" by simp
    then show ?thesis by (simp add: addShard_InrD(5))
  next
    case (VerifyShard s i cv pf)
    with Inr have "verifyShard env s i cv pf c = Inr c'" by simp
    then show ?thesis
      using compl by (cases rule: verifyShard_Inr_cases) auto
  qed
  with Inr show ?thesis by (simp add: transact_def)
qed

lemma run_complete:
  assumes "reachable env c" and "isComplete (sessions c sid)" and "list_all caller_ok cls"
  shows "sessions (run env cls c) sid = sessions c sid"
  using assms
proof (induction cls arbitrary: c)
  case Nil
  show ?case by simp
next
  case (Cons cl cls)
  have same: "sessions (transact env cl c) sid = sessions c sid"
    using Cons.prems(1,2) by (rule transact_complete)
  moreover from Cons.prems have "reachable env (transact env cl c)"
    by (simp add: reachable_transact)
  ultimately have "sessions (run env cls (transact env cl c)) sid = sessions (transact env cl c) sid"
    using Cons.IH Cons.prems(2,3) by simp
  with same show ?case by simp
qed

lemma complete_iff_count:
  assumes "rejects_zero_handle env" and "reachable env c" and "name (sessions c sid) \<noteq> []"
  shows "isComplete (sessions c sid) \<longleftrightarrow> getVerifiedShardCount c sid = threshold (sessions c sid)"
proof
  assume "isComplete (sessions c sid)"
  with reachable_honest_inv [OF assms(1,2), of sid]
  show "getVerifiedShardCount c sid = threshold (sessions c sid)"
    by (simp add: honest_inv_def)
next
  assume eq: "getVerifiedShardCount c sid = threshold (sessions c sid)"
  show "isComplete (sessions c sid)"
  proof (rule ccontr)
    assume "\<not> isComplete (sessions c sid)"
    with reachable_session_inv [OF assms(2), of sid] assms(3)
    have "getVerifiedShardCount c sid < threshold (sessions c sid)"
      by (simp add: session_inv_def)
    with eq show False by simp
  qed
qed

lemma verifyShard_complete_fails:
  assumes env: "rejects_zero_handle env" and reach: "reachable env c"
    and compl: "isComplete (sessions c sid)"
  shows "\<exists>e. verifyShard env sid idx cv pf c = Inl e"
proof (cases "verifyShard env sid idx cv pf c")
  case (Inl e)
  then show ?thesis by simp
next
  case (Inr c')
  note D = verifyShard_InrD [OF Inr]
  have "getVerifiedShardCount (markVerified sid idx c) sid = getVerifiedShardCount c sid + 1"
    using D(2,3) by (rule count_markVerified)
  moreover have "getVerifiedShardCount c sid = threshold (sessions c sid)"
    using reachable_honest_inv [OF env reach, of sid] compl by (simp add: honest_inv_def)
  ultimately have "threshold (sessions c sid) \<le> getVerifiedShardCount (markVerified sid idx c) sid"
    by simp
  with Inr compl have False
    by (cases rule: verifyShard_Inr_cases) auto
  then show ?thesis ..
qed

lemma verifyShard_complete_error:
  assumes env: "rejects_zero_handle env" and reach: "reachable env c"
    and compl: "isComplete (sessions c sid)"
    and pre: "idx < totalShards (sessions c sid)" "\<not> isVerified (sessionShards c sid idx)"
      "checkSignatures env [encryptedValue (sessionShards c sid idx)] cv pf"
      "abi_decode_uint32 cv = Some v"
      "unat v = publicValue1 (sessions c sid) \<or> unat v = publicValue2 (sessions c sid)"
  shows "verifyShard env sid idx cv pf c = Inl SessionAlreadyCompleted"
proof -
  have "getVerifiedShardCount (markVerified sid idx c) sid = getVerifiedShardCount c sid + 1"
    using pre(1,2) by (rule count_markVerified)
  moreover have "getVerifiedShardCount c sid = threshold (sessions c sid)"
    using reachable_honest_inv [OF env reach, of sid] compl by (simp add: honest_inv_def)
  ultimately have "threshold (sessions c sid) \<le> getVerifiedShardCount (markVerified sid idx c) sid"
    by simp
  with complete_named [OF reach compl] compl pre show ?thesis
    by (auto simp: verifyShard_def completeSession_def)
qed

lemma verifyShard_step:
  assumes env: "rejects_zero_handle env" and reach: "reachable env c"
    and ok: "verifyShard env sid idx cv pf c = Inr c'"
  shows "\<not> isComplete (sessions c sid)"
    and "getVerifiedShardCount c' sid = getVerifiedShardCount c sid + 1"
    and "isComplete (sessions c' sid) \<longleftrightarrow> getVerifiedShardCount c' sid = threshold (sessions c' sid)"
    and "events c' = events c @ ShardVerified sid idx #
           (if isComplete (sessions c' sid)
            then [SessionCompleted sid (decryptedValue (sessions c' sid))] else [])"
proof -
  note D = verifyShard_InrD [OF ok]
  show nc: "\<not> isComplete (sessions c sid)"
    using verifyShard_complete_fails [OF env reach, of sid idx cv pf] ok by auto
  have cnt: "getVerifiedShardCount (markVerified sid idx c) sid = getVerifiedShardCount c sid + 1"
    using D(2,3) by (rule count_markVerified)
  have "getVerifiedShardCount c' sid = getVerifiedShardCount (markVerified sid idx c) sid"
    using ok by (cases rule: verifyShard_Inr_cases) (auto intro: count_cong)
  with cnt show "getVerifiedShardCount c' sid = getVerifiedShardCount c sid + 1"
    by simp
  have "perform env (VerifyShard sid idx cv pf) c = Inr c'"
    using ok by simp
  then have reach': "reachable env c'"
    using reach by (auto intro: reachable_step [where cl = "VerifyShard sid idx cv pf"])
  have "name (sessions c' sid) \<noteq> []"
    using ok D(1) by (cases rule: verifyShard_Inr_cases) auto
  with env reach'
  show "isComplete (sessions c' sid) \<longleftrightarrow> getVerifiedShardCount c' sid = threshold (sessions c' sid)"
    by (rule complete_iff_count)
  show "events c' = events c @ ShardVerified sid idx #
           (if isComplete (sessions c' sid)
            then [SessionCompleted sid (decryptedValue (sessions c' sid))] else [])"
    using ok nc by (cases rule: verifyShard_Inr_cases) auto
qed

text \<open>
  Claim C1, as the contract has it.  Take a library that rejects the uninitialised
  handle, a reachable storage and a named session.
  \<^item> The log holds one \<open>SessionCompleted\<close> event of the session when it is complete and none
    otherwise, and the session is complete exactly when its verified count equals its
    threshold.
  \<^item> A call of \<open>verifyShard\<close> that returns found the session not complete and raises the
    verified count by one; it completes the session, emitting \<open>SessionCompleted\<close> with the
    reconstructed value, exactly when the new count equals the threshold.
  \<^item> Once the session is complete, every call of \<open>verifyShard\<close> on it reverts and leaves the
    storage and the log as they were.  A call on a shard that is not verified, with a
    valid index, an accepted proof and a candidate value, marks the shard, reaches
    \<open>completeSession\<close> again and is reverted by its guard, \<open>SessionAlreadyCompleted\<close>: the
    flag of the shard stays false.
  \<^item> No later call changes the record of a complete session, its reconstructed value
    included, or adds a \<open>SessionCompleted\<close> event for it.
\<close>

theorem C1_completes_once_then_closed:
  assumes env: "rejects_zero_handle env" and reach: "reachable env c"
    and named: "name (sessions c sid) \<noteq> []"
  shows "completions c sid = (if isComplete (sessions c sid) then 1 else 0) \<and>
    (isComplete (sessions c sid) \<longleftrightarrow> getVerifiedShardCount c sid = threshold (sessions c sid)) \<and>
    (\<forall>idx cv pf c'. verifyShard env sid idx cv pf c = Inr c' \<longrightarrow>
        \<not> isComplete (sessions c sid) \<and>
        getVerifiedShardCount c' sid = getVerifiedShardCount c sid + 1 \<and>
        (isComplete (sessions c' sid) \<longleftrightarrow>
           getVerifiedShardCount c' sid = threshold (sessions c' sid)) \<and>
        events c' = events c @ ShardVerified sid idx #
          (if isComplete (sessions c' sid)
           then [SessionCompleted sid (decryptedValue (sessions c' sid))] else [])) \<and>
    (isComplete (sessions c sid) \<longrightarrow>
       (\<forall>idx cv pf. (\<exists>e. verifyShard env sid idx cv pf c = Inl e) \<and>
                     transact env (VerifyShard sid idx cv pf) c = c) \<and>
       (\<forall>idx cv pf v. idx < totalShards (sessions c sid) \<and>
            \<not> isVerified (sessionShards c sid idx) \<and>
            checkSignatures env [encryptedValue (sessionShards c sid idx)] cv pf \<and>
            abi_decode_uint32 cv = Some v \<and>
            (unat v = publicValue1 (sessions c sid) \<or> unat v = publicValue2 (sessions c sid))
          \<longrightarrow> verifyShard env sid idx cv pf c = Inl SessionAlreadyCompleted) \<and>
       (\<forall>cls. list_all caller_ok cls \<longrightarrow>
            sessions (run env cls c) sid = sessions c sid \<and>
            completions (run env cls c) sid = 1))"
proof -
  have once: "completions c sid = (if isComplete (sessions c sid) then 1 else 0)"
    using reachable_session_inv [OF reach, of sid] by (simp add: session_inv_def)
  have iff: "isComplete (sessions c sid) \<longleftrightarrow>
      getVerifiedShardCount c sid = threshold (sessions c sid)"
    using env reach named by (rule complete_iff_count)
  have step: "\<not> isComplete (sessions c sid) \<and>
        getVerifiedShardCount c' sid = getVerifiedShardCount c sid + 1 \<and>
        (isComplete (sessions c' sid) \<longleftrightarrow>
           getVerifiedShardCount c' sid = threshold (sessions c' sid)) \<and>
        events c' = events c @ ShardVerified sid idx #
          (if isComplete (sessions c' sid)
           then [SessionCompleted sid (decryptedValue (sessions c' sid))] else [])"
    if "verifyShard env sid idx cv pf c = Inr c'" for idx cv pf c'
    using verifyShard_step [OF env reach that] by blast
  have closed: "(\<exists>e. verifyShard env sid idx cv pf c = Inl e) \<and>
      transact env (VerifyShard sid idx cv pf) c = c"
    if "isComplete (sessions c sid)" for idx cv pf
    using verifyShard_complete_fails [OF env reach that, of idx cv pf]
    by (auto simp: transact_def)
  have guard: "verifyShard env sid idx cv pf c = Inl SessionAlreadyCompleted"
    if "isComplete (sessions c sid)" "idx < totalShards (sessions c sid)"
      "\<not> isVerified (sessionShards c sid idx)"
      "checkSignatures env [encryptedValue (sessionShards c sid idx)] cv pf"
      "abi_decode_uint32 cv = Some v"
      "unat v = publicValue1 (sessions c sid) \<or> unat v = publicValue2 (sessions c sid)"
    for idx cv pf v
    using env reach that by (rule verifyShard_complete_error)
  have later: "sessions (run env cls c) sid = sessions c sid \<and> completions (run env cls c) sid = 1"
    if compl: "isComplete (sessions c sid)" and cls: "list_all caller_ok cls" for cls
  proof -
    have same: "sessions (run env cls c) sid = sessions c sid"
      using reach compl cls by (rule run_complete)
    have "reachable env (run env cls c)"
      using reach cls by (rule reachable_run)
    from reachable_session_inv [OF this, of sid] same compl
    have "completions (run env cls c) sid = 1"
      by (simp add: session_inv_def)
    with same show ?thesis by simp
  qed
  from once iff step closed guard later show ?thesis
    by blast
qed

text \<open>
  In the concrete run the third verification completes session \<open>s\<close>; afterwards shard 3,
  which is present and not verified, cannot be verified with its valid proof.
\<close>

theorem C1_completes_once_then_closed_witness:
  "rejects_zero_handle demo_fhe \<and> reachable demo_fhe demo_complete \<and>
   isComplete (sessions demo_complete ''s'') \<and>
   completions demo_complete ''s'' = 1 \<and>
   getVerifiedShardCount demo_complete ''s'' = threshold (sessions demo_complete ''s'') \<and>
   verifyShard demo_fhe ''s'' 3 (abi_encode_uint32 42) [1] demo_complete = Inl SessionAlreadyCompleted \<and>
   transact demo_fhe (VerifyShard ''s'' 3 (abi_encode_uint32 42) [1]) demo_complete = demo_complete \<and>
   decryptedValue (sessions (run demo_fhe [AddShard 6 ''s'' 3 (16 * 7 + 6) [1]] demo_complete) ''s'') = 42"
proof -
  have named: "name (sessions demo_complete ''s'') \<noteq> []"
    and compl: "isComplete (sessions demo_complete ''s'')"
    and val: "decryptedValue (sessions demo_complete ''s'') = 42"
    by (simp_all add: demo_complete_sessions)
  have pre: "3 < totalShards (sessions demo_complete ''s'') \<and>
      \<not> isVerified (sessionShards demo_complete ''s'' 3) \<and>
      checkSignatures demo_fhe [encryptedValue (sessionShards demo_complete ''s'' 3)]
        (abi_encode_uint32 42) [1] \<and>
      abi_decode_uint32 (abi_encode_uint32 42) = Some 42 \<and>
      (unat (42 :: uint32) = publicValue1 (sessions demo_complete ''s'') \<or>
       unat (42 :: uint32) = publicValue2 (sessions demo_complete ''s''))"
    by (simp add: demo_complete_sessions demo_complete_shards demo_fhe_def demo_clear_def)
  have calls: "list_all caller_ok [AddShard 6 ''s'' 3 (16 * 7 + 6) [1]]"
    by simp
  from C1_completes_once_then_closed [OF demo_rejects_zero_handle demo_complete_reachable named]
    compl val pre calls demo_rejects_zero_handle demo_complete_reachable
  show ?thesis
    by (metis (no_types, lifting))
qed

text \<open>
  The claim as it was stated fails: after completion, the call on the unverified shard 3
  does not set its flag.
\<close>

theorem C1_counterexample:
  "isComplete (sessions demo_complete ''s'') \<and>
   3 < totalShards (sessions demo_complete ''s'') \<and>
   holder (sessionShards demo_complete ''s'' 3) = 4 \<and>
   \<not> isVerified (sessionShards demo_complete ''s'' 3) \<and>
   checkSignatures demo_fhe [encryptedValue (sessionShards demo_complete ''s'' 3)]
     (abi_encode_uint32 42) [1] \<and>
   unat (42 :: uint32) = publicValue2 (sessions demo_complete ''s'') \<and>
   verifyShard demo_fhe ''s'' 3 (abi_encode_uint32 42) [1] demo_complete = Inl SessionAlreadyCompleted \<and>
   \<not> isVerified (sessionShards
        (transact demo_fhe (VerifyShard ''s'' 3 (abi_encode_uint32 42) [1]) demo_complete) ''s'' 3)"
  by (simp add: demo_complete_sessions demo_complete_shards demo_fhe_def demo_clear_def
      transact_def verifyShard_def completeSession_def getVerifiedShardCount_def
      getVerifiedShardCount_loop.simps)

subsection \<open>The reconstructed value is a function of the verified shards\<close>

lemma complete_iff_count_pos:
  assumes env: "rejects_zero_handle env" and reach: "reachable env c"
  shows "isComplete (sessions c sid) \<longleftrightarrow>
     0 < threshold (sessions c sid) \<and> getVerifiedShardCount c sid = threshold (sessions c sid)"
proof (cases "name (sessions c sid) = []")
  case True
  with reachable_session_inv [OF reach, of sid]
  have nc: "\<not> isComplete (sessions c sid)" and zero: "\<And>i. sessionShards c sid i = zero_shard"
    by (simp_all add: session_inv_def)
  have "getVerifiedShardCount c sid = 0"
    by (rule count_none) (simp add: zero zero_shard_def)
  with nc show ?thesis by auto
next
  case False
  with reachable_session_inv [OF reach, of sid] have "0 < threshold (sessions c sid)"
    by (simp add: session_inv_def)
  with complete_iff_count [OF env reach False] show ?thesis by simp
qed

lemma same_verified_same_value:
  assumes env: "rejects_zero_handle env" and r1: "reachable env c1" and r2: "reachable env c2"
    and thr: "threshold (sessions c1 sid) = threshold (sessions c2 sid)"
    and tot: "totalShards (sessions c1 sid) = totalShards (sessions c2 sid)"
    and flags: "\<And>i. i < totalShards (sessions c2 sid) \<Longrightarrow>
        isVerified (sessionShards c1 sid i) = isVerified (sessionShards c2 sid i)"
    and handles: "\<And>i. i < totalShards (sessions c2 sid) \<Longrightarrow> isVerified (sessionShards c2 sid i) \<Longrightarrow>
        encryptedValue (sessionShards c1 sid i) = encryptedValue (sessionShards c2 sid i)"
  shows "isComplete (sessions c1 sid) = isComplete (sessions c2 sid)"
    and "decryptedValue (sessions c1 sid) = decryptedValue (sessions c2 sid)"
proof -
  have cnt: "getVerifiedShardCount c1 sid = getVerifiedShardCount c2 sid"
    using tot flags by (rule count_cong)
  have comb: "combineShards env c1 sid = combineShards env c2 sid"
    using tot flags handles by (rule combine_cong)
  show compl: "isComplete (sessions c1 sid) = isComplete (sessions c2 sid)"
    using complete_iff_count_pos [OF env r1, of sid] complete_iff_count_pos [OF env r2, of sid]
      cnt thr by simp
  show "decryptedValue (sessions c1 sid) = decryptedValue (sessions c2 sid)"
  proof (cases "isComplete (sessions c2 sid)")
    case True
    with reachable_honest_inv [OF env r2, of sid]
    have "combineShards env c2 sid = Inr (decryptedValue (sessions c2 sid))"
      by (simp add: honest_inv_def)
    moreover from True compl reachable_honest_inv [OF env r1, of sid]
    have "combineShards env c1 sid = Inr (decryptedValue (sessions c1 sid))"
      by (simp add: honest_inv_def)
    ultimately show ?thesis using comb by simp
  next
    case False
    with reachable_session_inv [OF r2, of sid] have "decryptedValue (sessions c2 sid) = 0"
      by (simp add: session_inv_def)
    moreover from False compl reachable_session_inv [OF r1, of sid]
    have "decryptedValue (sessions c1 sid) = 0"
      by (simp add: session_inv_def)
    ultimately show ?thesis by simp
  qed
qed

lemma demo_permuted_sessions:
  "sessions demo_permuted ''s'' =
     \<lparr>name = ''wallet'', threshold = 3, totalShards = 5, publicValue1 = 7, publicValue2 = 42,
       description = ''demo'', creator = 9, timestamp = 1000, decryptedValue = 42,
       isComplete = True\<rparr>"
  by (simp add: demo_permuted_def demo_added_def demo_defs op_defs)

lemma demo_permuted_shards:
  "sessionShards demo_permuted ''s'' =
     (\<lambda>i. if i = 0 then \<lparr>encryptedValue = 113, holder = 1, isVerified = True\<rparr>
          else if i = 1 then \<lparr>encryptedValue = 674, holder = 2, isVerified = True\<rparr>
          else if i = 2 then \<lparr>encryptedValue = 115, holder = 3, isVerified = True\<rparr>
          else if i = 3 then \<lparr>encryptedValue = 676, holder = 4, isVerified = False\<rparr>
          else if i = 4 then \<lparr>encryptedValue = 117, holder = 5, isVerified = False\<rparr>
          else zero_shard)"
  by (rule ext) (simp add: demo_permuted_def demo_added_def demo_defs op_defs)

lemma demo_permuted_reachable: "reachable demo_fhe demo_permuted"
  unfolding demo_permuted_def
  by (rule reachable_run [OF demo_added_reachable]) simp

text \<open>
  Claim C5.  \<open>combineShards\<close> is the combination algorithm of the specification, the fold
  of exclusive-or from 0, over the cleartexts of the verified slots (it reverts when one
  of them does not decode).  The algorithm gives 0 for no value, and so does
  \<open>combineShards\<close> when no slot is verified; it is commutative and associative, and gives
  the same result for any two orders of the same values.  For two reachable storages
  in which a session has the same threshold, the same number of slots, the same slots
  verified and the same ciphertexts in them, however the calls that led there were
  ordered, the session is complete in both or in neither and has the same reconstructed
  value (given a library that rejects the uninitialised handle).
\<close>

theorem C5_combination_order_independent:
  "combineShards env c sid =
     (case those (verifiedShardValues env c sid) of
        None \<Rightarrow> Inl AbiDecodeFailed
      | Some vs \<Rightarrow> Inr (CombinationAlgorithm vs)) \<and>
   CombinationAlgorithm [] = 0 \<and>
   (verifiedIndices c sid = [] \<longrightarrow> combineShards env c sid = Inr 0) \<and>
   CombinationAlgorithm [a, b] = a XOR b \<and>
   CombinationAlgorithm [a, b] = CombinationAlgorithm [b, a] \<and>
   CombinationAlgorithm [CombinationAlgorithm [a, b], d] =
     CombinationAlgorithm [a, CombinationAlgorithm [b, d]] \<and>
   CombinationAlgorithm (vs @ ws) = CombinationAlgorithm vs XOR CombinationAlgorithm ws \<and>
   (mset vs = mset ws \<longrightarrow> CombinationAlgorithm vs = CombinationAlgorithm ws) \<and>
   (rejects_zero_handle env \<and> reachable env c1 \<and> reachable env c2 \<and>
    threshold (sessions c1 sid) = threshold (sessions c2 sid) \<and>
    totalShards (sessions c1 sid) = totalShards (sessions c2 sid) \<and>
    (\<forall>i < totalShards (sessions c2 sid).
       isVerified (sessionShards c1 sid i) = isVerified (sessionShards c2 sid i) \<and>
       (isVerified (sessionShards c2 sid i) \<longrightarrow>
          encryptedValue (sessionShards c1 sid i) = encryptedValue (sessionShards c2 sid i)))
    \<longrightarrow> isComplete (sessions c1 sid) = isComplete (sessions c2 sid) \<and>
        decryptedValue (sessions c1 sid) = decryptedValue (sessions c2 sid))"
proof -
  have fold: "combineShards env c sid =
     (case those (verifiedShardValues env c sid) of
        None \<Rightarrow> Inl AbiDecodeFailed
      | Some vs \<Rightarrow> Inr (CombinationAlgorithm vs))"
    by (rule combineShards_eq)
  have empty: "CombinationAlgorithm [] = 0"
    by (simp add: CombinationAlgorithm_def)
  have none: "combineShards env c sid = Inr 0" if "verifiedIndices c sid = []"
    using that by (simp add: combineShards_eq verifiedShardValues_def CombinationAlgorithm_def)
  have pair: "CombinationAlgorithm [x, y] = x XOR y" for x y
    by (simp add: CombinationAlgorithm_def ac_simps)
  have comm: "CombinationAlgorithm [a, b] = CombinationAlgorithm [b, a]"
    by (simp add: pair ac_simps)
  have assoc: "CombinationAlgorithm [CombinationAlgorithm [a, b], d] =
     CombinationAlgorithm [a, CombinationAlgorithm [b, d]]"
    by (simp add: pair ac_simps)
  have app: "CombinationAlgorithm (vs @ ws) = CombinationAlgorithm vs XOR CombinationAlgorithm ws"
    by (rule CombinationAlgorithm_append)
  have perm: "CombinationAlgorithm vs = CombinationAlgorithm ws" if "mset vs = mset ws"
    using that by (rule CombinationAlgorithm_mset)
  have state: "isComplete (sessions c1 sid) = isComplete (sessions c2 sid) \<and>
        decryptedValue (sessions c1 sid) = decryptedValue (sessions c2 sid)"
    if "rejects_zero_handle env" "reachable env c1" "reachable env c2"
      "threshold (sessions c1 sid) = threshold (sessions c2 sid)"
      "totalShards (sessions c1 sid) = totalShards (sessions c2 sid)"
      "\<forall>i < totalShards (sessions c2 sid).
         isVerified (sessionShards c1 sid i) = isVerified (sessionShards c2 sid i) \<and>
         (isVerified (sessionShards c2 sid i) \<longrightarrow>
            encryptedValue (sessionShards c1 sid i) = encryptedValue (sessionShards c2 sid i))"
    using same_verified_same_value [OF that(1-5), of ] that(6) by blast
  from fold empty none pair [of a b] comm assoc app perm state show ?thesis
    by blast
qed

text \<open>
  The shards 0, 1, 2 of session \<open>s\<close> verified in the order 0, 1, 2 and in the order
  2, 0, 1 give the same reconstructed value.
\<close>

theorem C5_combination_order_independent_witness:
  "verifiedIndices demo_added ''s'' = [] \<and> combineShards demo_fhe demo_added ''s'' = Inr 0 \<and>
   mset [7, 42, 7 :: uint32] = mset [7, 7, 42] \<and>
   CombinationAlgorithm [7, 42, 7] = CombinationAlgorithm [7, 7, 42] \<and>
   combineShards demo_fhe demo_complete ''s'' = Inr (CombinationAlgorithm [7, 42, 7]) \<and>
   isComplete (sessions demo_permuted ''s'') = isComplete (sessions demo_complete ''s'') \<and>
   decryptedValue (sessions demo_permuted ''s'') = decryptedValue (sessions demo_complete ''s'')"
proof -
  have none: "verifiedIndices demo_added ''s'' = []"
    by (simp add: verifiedIndices_def demo_added_sessions demo_added_shards)
  have perm: "mset [7, 42, 7 :: uint32] = mset [7, 7, 42]"
    by simp
  have vals: "those (verifiedShardValues demo_fhe demo_complete ''s'') = Some [7, 42, 7]"
    by (simp add: verifiedShardValues_def verifiedIndices_def shardValue_def upt_rec
        demo_complete_sessions demo_complete_shards demo_fhe_def demo_clear_def)
  have same: "threshold (sessions demo_permuted ''s'') = threshold (sessions demo_complete ''s'') \<and>
      totalShards (sessions demo_permuted ''s'') = totalShards (sessions demo_complete ''s'') \<and>
      (\<forall>i < totalShards (sessions demo_complete ''s'').
         isVerified (sessionShards demo_permuted ''s'' i) =
           isVerified (sessionShards demo_complete ''s'' i) \<and>
         (isVerified (sessionShards demo_complete ''s'' i) \<longrightarrow>
            encryptedValue (sessionShards demo_permuted ''s'' i) =
              encryptedValue (sessionShards demo_complete ''s'' i)))"
    by (simp add: demo_permuted_sessions demo_complete_sessions demo_permuted_shards
        demo_complete_shards)
  from C5_combination_order_independent [of demo_fhe demo_added "''s''" 0 0 0 "[7, 42, 7]" "[7, 7, 42]"
      demo_permuted demo_complete] none perm
  have part1: "combineShards demo_fhe demo_added ''s'' = Inr 0"
    and part2: "CombinationAlgorithm [7, 42, 7] = CombinationAlgorithm [7, 7, 42 :: uint32]"
    by blast+
  from C5_combination_order_independent [of demo_fhe demo_complete "''s''" 0 0 0 "[]" "[]"
      demo_permuted demo_complete] vals same demo_rejects_zero_handle demo_permuted_reachable
    demo_complete_reachable
  have part3: "combineShards demo_fhe demo_complete ''s'' = Inr (CombinationAlgorithm [7, 42, 7])"
    and part4: "isComplete (sessions demo_permuted ''s'') = isComplete (sessions demo_complete ''s'')"
    and part5: "decryptedValue (sessions demo_permuted ''s'') = decryptedValue (sessions demo_complete ''s'')"
    by simp_all
  from none perm part1 part2 part3 part4 part5 show ?thesis
    by simp
qed

lemma demo_created_sessions:
  "sessions demo_created ''s'' =
     \<lparr>name = ''wallet'', threshold = 3, totalShards = 5, publicValue1 = 7, publicValue2 = 42,
       description = ''demo'', creator = 9, timestamp = 1000, decryptedValue = 0,
       isComplete = False\<rparr>"
  by (simp add: demo_created_def demo_defs op_defs)

lemma demo_created_shards: "sessionShards demo_created ''s'' i = zero_shard"
  by (simp add: demo_created_def demo_defs op_defs)

lemma completeSession_error:
  "completeSession env sid c = Inl e \<Longrightarrow> e = SessionAlreadyCompleted \<or> e = AbiDecodeFailed"
  by (auto simp: completeSession_def combineShards_eq split: if_splits option.splits)

lemma verifyShard_error:
  assumes "verifyShard env sid idx cv pf c = Inl e"
  shows "e \<in> {SessionNotFound, InvalidShardIndex, ShardAlreadyVerified, ProofVerificationFailed,
               AbiDecodeFailed, InvalidShardValue, SessionAlreadyCompleted}"
  using assms
  by (auto simp: verifyShard_def Let_def split: if_splits option.splits
      dest: completeSession_error)

lemma demo_single_sessions:
  "sessions demo_single ''w'' =
     \<lparr>name = ''single'', threshold = 1, totalShards = 1, publicValue1 = 7, publicValue2 = 42,
       description = ''demo'', creator = 9, timestamp = 1000, decryptedValue = 0,
       isComplete = False\<rparr>"
  by (simp add: demo_single_def demo_defs op_defs)

lemma demo_single_shards: "sessionShards demo_single ''w'' i = zero_shard"
  by (simp add: demo_single_def demo_defs op_defs)

text \<open>
  Claim C2, as the contract has it.  \<open>verifyShard\<close> does not check that a shard was added
  and never reverts with \<open>ShardNotFound\<close>.  For an existing session and a valid index
  whose slot is empty, the proof is checked against the uninitialised handle of the
  slot.
  \<^item> When the library rejects it, the call reverts with \<open>ProofVerificationFailed\<close> and
    leaves the storage as it was.
  \<^item> When the library accepts it for a candidate value, the call goes on exactly as for
    any shard.  If the verified count with the slot marked stays below the threshold,
    the call returns with the empty slot marked verified.  Otherwise it runs
    \<open>completeSession\<close> on the storage with the slot marked: it reverts with
    \<open>SessionAlreadyCompleted\<close> when the session is complete, it reverts with the error of
    \<open>combineShards\<close> when the combination reverts, and else it returns with the slot marked
    and the session completed.
  \<^item> Whenever the call returns, the empty slot is marked verified and still has no
    holder; whenever it reverts, the storage is as it was.
\<close>

theorem C2_empty_slot_left_to_proof_check:
  assumes "name (sessions c sid) \<noteq> []" and "idx < totalShards (sessions c sid)"
    and "sessionShards c sid idx = zero_shard"
  shows "verifyShard env sid idx cv pf c \<noteq> Inl ShardNotFound \<and>
    (\<not> checkSignatures env [0] cv pf \<longrightarrow>
       verifyShard env sid idx cv pf c = Inl ProofVerificationFailed \<and>
       transact env (VerifyShard sid idx cv pf) c = c) \<and>
    (rejects_zero_handle env \<longrightarrow>
       verifyShard env sid idx cv pf c = Inl ProofVerificationFailed) \<and>
    (\<forall>v. checkSignatures env [0] cv pf \<and> abi_decode_uint32 cv = Some v \<and>
         (unat v = publicValue1 (sessions c sid) \<or> unat v = publicValue2 (sessions c sid)) \<and>
         getVerifiedShardCount c sid + 1 < threshold (sessions c sid)
       \<longrightarrow> verifyShard env sid idx cv pf c = Inr (markVerified sid idx c) \<and>
           isVerified (sessionShards (markVerified sid idx c) sid idx)) \<and>
    (\<forall>v. checkSignatures env [0] cv pf \<and> abi_decode_uint32 cv = Some v \<and>
         (unat v = publicValue1 (sessions c sid) \<or> unat v = publicValue2 (sessions c sid))
       \<longrightarrow> verifyShard env sid idx cv pf c =
             (if threshold (sessions c sid) \<le> getVerifiedShardCount c sid + 1
              then completeSession env sid (markVerified sid idx c)
              else Inr (markVerified sid idx c))) \<and>
    (isComplete (sessions c sid) \<longrightarrow>
       completeSession env sid (markVerified sid idx c) = Inl SessionAlreadyCompleted) \<and>
    (\<forall>e. \<not> isComplete (sessions c sid) \<and>
         combineShards env (markVerified sid idx c) sid = Inl e
       \<longrightarrow> completeSession env sid (markVerified sid idx c) = Inl e) \<and>
    (\<forall>r. \<not> isComplete (sessions c sid) \<and>
         combineShards env (markVerified sid idx c) sid = Inr r
       \<longrightarrow> completeSession env sid (markVerified sid idx c) =
             Inr ((markVerified sid idx c)
                    \<lparr>sessions := (sessions c)(sid :=
                         (sessions c sid)\<lparr>decryptedValue := r, isComplete := True\<rparr>),
                     events := events c @ [ShardVerified sid idx, SessionCompleted sid r]\<rparr>)) \<and>
    (\<forall>c'. verifyShard env sid idx cv pf c = Inr c' \<longrightarrow>
       isVerified (sessionShards c' sid idx) \<and> holder (sessionShards c' sid idx) = 0 \<and>
       encryptedValue (sessionShards c' sid idx) = 0) \<and>
    (\<forall>e. verifyShard env sid idx cv pf c = Inl e \<longrightarrow>
       transact env (VerifyShard sid idx cv pf) c = c)"
proof -
  let ?c1 = "markVerified sid idx c"
  have unver: "\<not> isVerified (sessionShards c sid idx)"
    and handle: "encryptedValue (sessionShards c sid idx) = 0"
    and holder: "holder (sessionShards c sid idx) = 0"
    using assms(3) by (simp_all add: zero_shard_def)
  have count: "getVerifiedShardCount ?c1 sid = getVerifiedShardCount c sid + 1"
    using assms(2) unver by (rule count_markVerified)
  have rejected: "verifyShard env sid idx cv pf c = Inl ProofVerificationFailed"
    if "\<not> checkSignatures env [0] cv pf"
    using assms(1,2) unver handle that by (simp add: verifyShard_def)
  have honest: "verifyShard env sid idx cv pf c = Inl ProofVerificationFailed"
    if "rejects_zero_handle env"
    using rejected that by (simp add: rejects_zero_handle_def)
  have accepted: "verifyShard env sid idx cv pf c =
             (if threshold (sessions c sid) \<le> getVerifiedShardCount c sid + 1
              then completeSession env sid ?c1 else Inr ?c1)"
    if "checkSignatures env [0] cv pf" "abi_decode_uint32 cv = Some v"
      "unat v = publicValue1 (sessions c sid) \<or> unat v = publicValue2 (sessions c sid)" for v
    using that assms(1,2) unver handle count by (auto simp: verifyShard_def)
  have below: "verifyShard env sid idx cv pf c = Inr ?c1 \<and> isVerified (sessionShards ?c1 sid idx)"
    if "checkSignatures env [0] cv pf" "abi_decode_uint32 cv = Some v"
      "unat v = publicValue1 (sessions c sid) \<or> unat v = publicValue2 (sessions c sid)"
      "getVerifiedShardCount c sid + 1 < threshold (sessions c sid)" for v
    using accepted [OF that(1-3)] that(4) by simp
  have closed: "completeSession env sid ?c1 = Inl SessionAlreadyCompleted"
    if "isComplete (sessions c sid)"
    using that by (simp add: completeSession_def)
  have undecoded: "completeSession env sid ?c1 = Inl e"
    if "\<not> isComplete (sessions c sid)" "combineShards env ?c1 sid = Inl e" for e
    using that by (simp add: completeSession_def)
  have completed: "completeSession env sid ?c1 =
             Inr (?c1\<lparr>sessions := (sessions c)(sid :=
                         (sessions c sid)\<lparr>decryptedValue := r, isComplete := True\<rparr>),
                     events := events c @ [ShardVerified sid idx, SessionCompleted sid r]\<rparr>)"
    if "\<not> isComplete (sessions c sid)" "combineShards env ?c1 sid = Inr r" for r
    using that by (simp add: completeSession_def)
  have marked: "isVerified (sessionShards c' sid idx) \<and> holder (sessionShards c' sid idx) = 0 \<and>
       encryptedValue (sessionShards c' sid idx) = 0"
    if "verifyShard env sid idx cv pf c = Inr c'" for c'
    using that handle holder by (cases rule: verifyShard_Inr_cases) simp_all
  have unchanged: "transact env (VerifyShard sid idx cv pf) c = c"
    if "verifyShard env sid idx cv pf c = Inl e" for e
    using that by (simp add: transact_def)
  have never: "verifyShard env sid idx cv pf c \<noteq> Inl ShardNotFound"
    using verifyShard_error [of env sid idx cv pf c ShardNotFound] by auto
  from never rejected unchanged honest below accepted closed undecoded completed marked
  show ?thesis
    by blast
qed

text \<open>
  Slot 4 of the session \<open>s\<close> that has no shard yet: the concrete library rejects the
  proof, and the library that signs everything lets the call mark the empty slot.  In
  the session \<open>w\<close>, whose threshold is 1, the same library lets the call on the empty
  slot 0 mark the slot and complete the session.
\<close>

theorem C2_empty_slot_left_to_proof_check_witness:
  "sessionShards demo_created ''s'' 4 = zero_shard \<and>
   verifyShard demo_fhe ''s'' 4 (abi_encode_uint32 7) [1] demo_created = Inl ProofVerificationFailed \<and>
   verifyShard lax_fhe ''s'' 4 (abi_encode_uint32 7) [1] demo_created =
     Inr (markVerified ''s'' 4 demo_created) \<and>
   sessionShards demo_single ''w'' 0 = zero_shard \<and>
   verifyShard lax_fhe ''w'' 0 (abi_encode_uint32 7) [1] demo_single =
     Inr ((markVerified ''w'' 0 demo_single)
            \<lparr>sessions := (sessions demo_single)(''w'' :=
                 (sessions demo_single ''w'')\<lparr>decryptedValue := 0, isComplete := True\<rparr>),
             events := events demo_single @ [ShardVerified ''w'' 0, SessionCompleted ''w'' 0]\<rparr>)"
proof -
  have named: "name (sessions demo_created ''s'') \<noteq> []"
    and index: "4 < totalShards (sessions demo_created ''s'')"
    by (simp_all add: demo_created_sessions)
  have empty: "sessionShards demo_created ''s'' 4 = zero_shard"
    by (rule demo_created_shards)
  have count: "getVerifiedShardCount demo_created ''s'' = 0"
    by (rule count_none) (simp add: demo_created_shards zero_shard_def)
  from C2_empty_slot_left_to_proof_check [OF named index empty, of demo_fhe "abi_encode_uint32 7" "[1]"]
  have first: "verifyShard demo_fhe ''s'' 4 (abi_encode_uint32 7) [1] demo_created =
      Inl ProofVerificationFailed"
    by (simp add: demo_fhe_def)
  from C2_empty_slot_left_to_proof_check [OF named index empty, of lax_fhe "abi_encode_uint32 7" "[1]"]
  have second: "verifyShard lax_fhe ''s'' 4 (abi_encode_uint32 7) [1] demo_created =
     Inr (markVerified ''s'' 4 demo_created)"
    by (simp add: lax_fhe_def demo_created_sessions count)
  have named': "name (sessions demo_single ''w'') \<noteq> []"
    and index': "0 < totalShards (sessions demo_single ''w'')"
    and open': "\<not> isComplete (sessions demo_single ''w'')"
    by (simp_all add: demo_single_sessions)
  have empty': "sessionShards demo_single ''w'' 0 = zero_shard"
    by (rule demo_single_shards)
  have count': "getVerifiedShardCount demo_single ''w'' = 0"
    by (rule count_none) (simp add: demo_single_shards zero_shard_def)
  have combined: "combineShards lax_fhe (markVerified ''w'' 0 demo_single) ''w'' = Inr 0"
    by (simp add: combineShards_def combineShards_loop.simps demo_single_sessions
        demo_single_shards zero_shard_def lax_fhe_def demo_fhe_def demo_clear_def)
  from C2_empty_slot_left_to_proof_check [OF named' index' empty', of lax_fhe "abi_encode_uint32 7" "[1]"]
    open' combined
  have third: "verifyShard lax_fhe ''w'' 0 (abi_encode_uint32 7) [1] demo_single =
     Inr ((markVerified ''w'' 0 demo_single)
            \<lparr>sessions := (sessions demo_single)(''w'' :=
                 (sessions demo_single ''w'')\<lparr>decryptedValue := 0, isComplete := True\<rparr>),
             events := events demo_single @ [ShardVerified ''w'' 0, SessionCompleted ''w'' 0]\<rparr>)"
    by (simp add: lax_fhe_def demo_single_sessions count')
  from empty first second empty' third show ?thesis
    by simp
qed

text \<open>
  The claim as it was stated fails on the same slot: the error is not \<open>ShardNotFound\<close>,
  and with a library that signs everything the call returns and changes the storage.
\<close>

theorem C2_counterexample:
  "name (sessions demo_created ''s'') = ''wallet'' \<and>
   4 < totalShards (sessions demo_created ''s'') \<and>
   sessionShards demo_created ''s'' 4 = zero_shard \<and>
   verifyShard demo_fhe ''s'' 4 (abi_encode_uint32 7) [1] demo_created \<noteq> Inl ShardNotFound \<and>
   verifyShard demo_fhe ''s'' 4 (abi_encode_uint32 7) [1] demo_created = Inl ProofVerificationFailed \<and>
   isVerified (sessionShards
     (transact lax_fhe (VerifyShard ''s'' 4 (abi_encode_uint32 7) [1]) demo_created) ''s'' 4)"
  by (simp add: demo_created_sessions demo_created_shards zero_shard_def demo_fhe_def lax_fhe_def
      transact_def verifyShard_def getVerifiedShardCount_def getVerifiedShardCount_loop.simps)

lemma demo_unnamed_sessions:
  "sessions demo_unnamed ''u'' =
     \<lparr>name = [], threshold = 1, totalShards = 1, publicValue1 = 7, publicValue2 = 42,
       description = ''first'', creator = 9, timestamp = 1000, decryptedValue = 0,
       isComplete = False\<rparr>"
  by (simp add: demo_unnamed_def demo_defs op_defs)

lemma demo_unnamed_ids: "sessionIds demo_unnamed = [''u'']"
  by (simp add: demo_unnamed_def demo_defs op_defs)

lemma demo_unnamed_shards: "sessionShards demo_unnamed ''u'' i = zero_shard"
  by (simp add: demo_unnamed_def demo_defs op_defs)

text \<open>
  Claim C10, as the contract has it.  A session exists for the contract exactly when the
  stored name is not empty.  \<open>createSession\<close> reverts with \<open>SessionAlreadyExists\<close> exactly
  when the stored name is not empty; it returns exactly when the stored name is empty and
  \<open>0 < threshold \<le> totalShards\<close>, and then it overwrites the stored record and appends the
  id to the registry.  While the stored name is empty, \<open>addShard\<close>, \<open>verifyShard\<close>,
  \<open>getSession\<close> and \<open>getShard\<close> revert with \<open>SessionNotFound\<close>.  A session created with the
  empty name has the empty name stored, so it can be created again and none of these
  calls reaches it.
\<close>

theorem C10_session_exists_iff_named:
  "(createSession sender now sid name' threshold' totalShards' pv1 pv2 description' c =
      Inl SessionAlreadyExists \<longleftrightarrow> name (sessions c sid) \<noteq> []) \<and>
   ((\<exists>c'. createSession sender now sid name' threshold' totalShards' pv1 pv2 description' c = Inr c')
      \<longleftrightarrow> name (sessions c sid) = [] \<and> 0 < threshold' \<and> threshold' \<le> totalShards') \<and>
   (\<forall>c'. createSession sender now sid name' threshold' totalShards' pv1 pv2 description' c = Inr c'
      \<longrightarrow> sessions c' sid =
            \<lparr>name = name', threshold = threshold', totalShards = totalShards',
              publicValue1 = pv1, publicValue2 = pv2, description = description',
              creator = sender, timestamp = now, decryptedValue = 0, isComplete = False\<rparr> \<and>
          sessionIds c' = sessionIds c @ [sid]) \<and>
   (name (sessions c sid) = [] \<longrightarrow>
      addShard env sender' sid idx ext pf c = Inl SessionNotFound \<and>
      verifyShard env sid idx cv dp c = Inl SessionNotFound \<and>
      getSession c sid = Inl SessionNotFound \<and>
      getShard c sid idx = Inl SessionNotFound) \<and>
   (\<forall>c'. createSession sender now sid [] threshold' totalShards' pv1 pv2 description' c = Inr c'
      \<longrightarrow> name (sessions c' sid) = [])"
proof -
  have exists_iff: "createSession sender now sid name' threshold' totalShards' pv1 pv2 description' c =
      Inl SessionAlreadyExists \<longleftrightarrow> name (sessions c sid) \<noteq> []"
    by (simp add: createSession_def)
  have returns_iff: "(\<exists>c'. createSession sender now sid name' threshold' totalShards' pv1 pv2
        description' c = Inr c')
      \<longleftrightarrow> name (sessions c sid) = [] \<and> 0 < threshold' \<and> threshold' \<le> totalShards'"
    by (auto simp: createSession_def)
  have stored: "sessions c' sid =
            \<lparr>name = nm, threshold = threshold', totalShards = totalShards',
              publicValue1 = pv1, publicValue2 = pv2, description = description',
              creator = sender, timestamp = now, decryptedValue = 0, isComplete = False\<rparr> \<and>
          sessionIds c' = sessionIds c @ [sid]"
    if "createSession sender now sid nm threshold' totalShards' pv1 pv2 description' c = Inr c'"
    for c' nm
    using createSession_InrD(4,6) [OF that] by simp
  have hidden: "addShard env sender' sid idx ext pf c = Inl SessionNotFound \<and>
      verifyShard env sid idx cv dp c = Inl SessionNotFound \<and>
      getSession c sid = Inl SessionNotFound \<and>
      getShard c sid idx = Inl SessionNotFound"
    if "name (sessions c sid) = []"
    using that by (simp add: addShard_def verifyShard_def getSession_def getShard_def)
  from exists_iff returns_iff stored [of name'] stored [of "[]"] hidden show ?thesis
    by simp
qed

text \<open>
  The session \<open>u\<close> was created with the empty name: it is created again, and no shard can
  be added to it.
\<close>

theorem C10_session_exists_iff_named_witness:
  "name (sessions demo_unnamed ''u'') = [] \<and>
   (\<exists>c'. createSession 8 2000 ''u'' ''second'' 2 3 1 2 ''again'' demo_unnamed = Inr c') \<and>
   addShard demo_fhe 1 ''u'' 0 (16 * 7 + 1) [1] demo_unnamed = Inl SessionNotFound \<and>
   getSession demo_unnamed ''u'' = Inl SessionNotFound"
  using C10_session_exists_iff_named [of 8 2000 "''u''" "''second''" 2 3 1 2 "''again''"
      demo_unnamed demo_fhe 1 0 "16 * 7 + 1" "[1]" "[]" "[]"]
  by (simp add: demo_unnamed_sessions)

text \<open>
  The claim as it was stated fails: with the stored name empty, \<open>createSession\<close> with the
  threshold 0 does not return; and the session \<open>u\<close>, created with the empty name, is still
  listed by \<open>getAllSessionIds\<close> and counted, without a revert, by \<open>getVerifiedShardCount\<close>.
\<close>

theorem C10_counterexample:
  "name (sessions init_contract ''s'') = [] \<and>
   createSession 9 1000 ''s'' ''wallet'' 0 5 7 42 ''demo'' init_contract = Inl InvalidThreshold \<and>
   name (sessions demo_unnamed ''u'') = [] \<and>
   getAllSessionIds demo_unnamed = [''u''] \<and>
   getVerifiedShardCount demo_unnamed ''u'' = 0"
  by (simp add: createSession_def init_contract_def zero_session_def demo_unnamed_sessions
      demo_unnamed_ids demo_unnamed_shards zero_shard_def getAllSessionIds_def
      getVerifiedShardCount_def getVerifiedShardCount_loop.simps)

text \<open>
  Claim C3 fails on the contract.  The session \<open>u\<close> is in the storage and in the registry,
  created with the empty name.  A second \<open>createSession\<close> with the same id does not revert
  with \<open>SessionAlreadyExists\<close>: it returns, overwrites the data of the first session and
  appends the id to the registry a second time.
\<close>

theorem C3_unnamed_session_created_twice:
  "sessionIds demo_unnamed = [''u''] \<and>
   description (sessions demo_unnamed ''u'') = ''first'' \<and>
   threshold (sessions demo_unnamed ''u'') = 1 \<and>
   createSession 8 2000 ''u'' ''second'' 2 3 1 2 ''again'' demo_unnamed =
     Inr (transact demo_fhe (CreateSession 8 2000 ''u'' ''second'' 2 3 1 2 ''again'') demo_unnamed) \<and>
   sessionIds (transact demo_fhe (CreateSession 8 2000 ''u'' ''second'' 2 3 1 2 ''again'') demo_unnamed)
     = [''u'', ''u''] \<and>
   description (sessions
     (transact demo_fhe (CreateSession 8 2000 ''u'' ''second'' 2 3 1 2 ''again'') demo_unnamed) ''u'')
     = ''again'' \<and>
   threshold (sessions
     (transact demo_fhe (CreateSession 8 2000 ''u'' ''second'' 2 3 1 2 ''again'') demo_unnamed) ''u'')
     = 2"
  by (simp add: demo_unnamed_sessions demo_unnamed_ids transact_def createSession_def)

text \<open>
  Claim C9 fails on the contract for \<open>getVerifiedShardCount\<close>.  No session \<open>ghost\<close> exists:
  \<open>getSession\<close> and \<open>getShard\<close> revert with \<open>SessionNotFound\<close>, and
  \<open>getVerifiedShardCount\<close>, which has no such check, returns 0.
\<close>

theorem C9_count_of_unknown_session:
  "name (sessions demo_complete ''ghost'') = [] \<and>
   getSession demo_complete ''ghost'' = Inl SessionNotFound \<and>
   getShard demo_complete ''ghost'' 0 = Inl SessionNotFound \<and>
   getVerifiedShardCount demo_complete ''ghost'' = 0"
proof -
  have "sessions demo_complete ''ghost'' = zero_session"
    by (simp add: demo_complete_def demo_added_def demo_defs op_defs)
  then show ?thesis
    by (simp add: zero_session_def getSession_def getShard_def getVerifiedShardCount_def
        getVerifiedShardCount_loop.simps)
qed

end
